theory Spec2Isabelle
  imports Complex_Main "HOL-Library.AList" "HOL-Library.Char_ord" "HOL-Library.List_Lexorder"
begin
chapter \<open>The transport layer of the Etherscan V2 SDK\<close>

text \<open>
  A shallow embedding of the request transport of the SDK (src/core/transport.ts, which
  also holds the cache and validators modules, errors.ts, types.ts) and of the account balance method
  (src/resources/account.ts). Objects with identity (limiters, promises) live in heaps
  and are referred to by index; mutation is state passing; what a function throws is the
  left summand of its result; the clock and the network are arguments. The definitions
  come first, the theorems after them.
\<close>


section \<open>JavaScript values and strings\<close>

text \<open>
  A JavaScript string is a sequence of UTF-16 code units; the model has Isabelle's
  \<open>string\<close>, a list of 8-bit characters, which covers the code units below 256. A number
  is an IEEE double: \<open>Fin q\<close> is the finite double whose value is the rational \<open>q\<close>
  (\<^verbatim>\<open>-0\<close> is identified with \<^verbatim>\<open>0\<close>), next to \<^verbatim>\<open>NaN\<close> and the two infinities.
\<close>

datatype jsnum = NaN | PosInf | NegInf | Fin rat

text \<open>
  The values that flow through the transport: what \<^verbatim>\<open>JSON.parse\<close> returns (null,
  booleans, numbers, strings, arrays, objects), \<^verbatim>\<open>undefined\<close> (a property that is not
  there), and the \<^verbatim>\<open>bigint\<close>s that schemas produce. An object is the list of its own
  properties in order; a property is read with \<open>map_of\<close>.
\<close>

datatype jsval =
    VUndefined
  | VNull
  | VBool bool
  | VNum jsnum
  | VBigInt int
  | VStr string
  | VArr "jsval list"
  | VObj "(string \<times> jsval) list"

text \<open>What the model takes from the JavaScript runtime and does not interpret.\<close>

record runtime =
  parse_URL :: "string \<Rightarrow> (string \<times> string) option"
  URL_toString :: "string \<Rightarrow> (string \<times> string) list \<Rightarrow> string"
  JSON_parse :: "string \<Rightarrow> jsval option"
  Number_frac_toString :: "rat \<Rightarrow> string"

text \<open>
  \<open>parse_URL s\<close> is \<^verbatim>\<open>new URL(s)\<close>: its \<^verbatim>\<open>origin\<close> and \<^verbatim>\<open>protocol\<close>, or \<open>None\<close> where the
  constructor throws. \<open>URL_toString base ps\<close> is \<^verbatim>\<open>toString()\<close> of \<^verbatim>\<open>new URL(base)\<close>
  after \<^verbatim>\<open>searchParams.append(k, v)\<close> for each pair of \<open>ps\<close> in order. \<open>JSON_parse\<close> is
  \<open>None\<close> where \<^verbatim>\<open>JSON.parse\<close> throws a SyntaxError. \<open>Number_frac_toString\<close> prints
  the doubles that are not integers below \<open>10^21\<close>.
\<close>

subsection \<open>Strings\<close>

definition digit_char :: "nat \<Rightarrow> char" where
  "digit_char n = ''0123456789'' ! (n mod 10)"

fun nat_toString :: "nat \<Rightarrow> string" where
  "nat_toString n = (if n < 10 then [digit_char n] else nat_toString (n div 10) @ [digit_char (n mod 10)])"

declare nat_toString.simps [simp del]

definition int_toString :: "int \<Rightarrow> string" where
  "int_toString i = (if i < 0 then CHR ''-'' # nat_toString (nat (- i)) else nat_toString (nat i))"

definition Number_toString :: "runtime \<Rightarrow> jsnum \<Rightarrow> string" where
  "Number_toString rt x =
     (case x of
        NaN \<Rightarrow> ''NaN''
      | PosInf \<Rightarrow> ''Infinity''
      | NegInf \<Rightarrow> ''-Infinity''
      | Fin q \<Rightarrow>
          (if of_int \<lfloor>q\<rfloor> = q \<and> \<bar>q\<bar> < 10 ^ 21 then int_toString \<lfloor>q\<rfloor>
           else Number_frac_toString rt q))"

text \<open>\<^verbatim>\<open>s.startsWith(p)\<close> and \<^verbatim>\<open>s.includes(p)\<close>.\<close>

fun startsWith :: "string \<Rightarrow> string \<Rightarrow> bool" where
  "startsWith s [] = True"
| "startsWith [] (c # p) = False"
| "startsWith (x # s) (c # p) = (x = c \<and> startsWith s p)"

fun str_includes :: "string \<Rightarrow> string \<Rightarrow> bool" where
  "str_includes [] p = (p = [])"
| "str_includes (x # s) p = (startsWith (x # s) p \<or> str_includes s p)"

text \<open>
  \<^verbatim>\<open>Array.prototype.join\<close> on strings, \<^verbatim>\<open>s.split(',')\<close> (which returns one piece more
  than there are separators, the empty string included) and \<^verbatim>\<open>s.trim()\<close>. The white
  space and line terminators of ECMAScript below code 256 are TAB, LF, VT, FF, CR, SP
  and NBSP.
\<close>

fun join :: "string \<Rightarrow> string list \<Rightarrow> string" where
  "join sep [] = []"
| "join sep [x] = x"
| "join sep (x # y # ys) = x @ sep @ join sep (y # ys)"

fun split_on :: "char \<Rightarrow> string \<Rightarrow> string list" where
  "split_on sep [] = [[]]"
| "split_on sep (c # s) =
     (if c = sep then [] # split_on sep s
      else (case split_on sep s of [] \<Rightarrow> [[c]] | p # ps \<Rightarrow> (c # p) # ps))"

definition is_whitespace :: "char \<Rightarrow> bool" where
  "is_whitespace c = (c \<in> set [CHR 0x09, CHR 0x0A, CHR 0x0B, CHR 0x0C, CHR 0x0D, CHR 0x20, CHR 0xA0])"

definition trim :: "string \<Rightarrow> string" where
  "trim s = rev (dropWhile is_whitespace (rev (dropWhile is_whitespace s)))"

subsection \<open>Regular expressions of the source\<close>

text \<open>
  With the \<^verbatim>\<open>i\<close> flag (and no \<^verbatim>\<open>u\<close> flag) two code units match when they have the
  same canonical form, the upper case; a code unit outside ASCII never canonicalises to
  an ASCII one, so against the ASCII patterns of the source only the ASCII letters fold.
\<close>

definition canonicalize :: "char \<Rightarrow> char" where
  "canonicalize c =
     (case map_of (zip ''abcdefghijklmnopqrstuvwxyz'' ''ABCDEFGHIJKLMNOPQRSTUVWXYZ'') c of
        Some u \<Rightarrow> u | None \<Rightarrow> c)"

text \<open>\<^verbatim>\<open>/rate limit/i.test(s)\<close>\<close>

definition test_rate_limit :: "string \<Rightarrow> bool" where
  "test_rate_limit s = str_includes (map canonicalize s) ''RATE LIMIT''"

text \<open>
  \<^verbatim>\<open>/p.*q/i.test(s)\<close> for literal \<open>p\<close> and \<open>q\<close> (given in upper case): somewhere \<open>p\<close>
  matches, and after it \<open>q\<close> matches with no line terminator in between (\<^verbatim>\<open>.\<close> matches
  any code unit but LF, CR, U+2028 and U+2029).
\<close>

definition is_line_terminator :: "char \<Rightarrow> bool" where
  "is_line_terminator c = (c = CHR 0x0A \<or> c = CHR 0x0D)"

fun dotstar_then :: "string \<Rightarrow> string \<Rightarrow> bool" where
  "dotstar_then [] q = (q = [])"
| "dotstar_then (c # s) q =
     (startsWith (c # s) q \<or> (\<not> is_line_terminator c \<and> dotstar_then s q))"

fun find_then_dotstar :: "string \<Rightarrow> string \<Rightarrow> string \<Rightarrow> bool" where
  "find_then_dotstar [] p q = (p = [] \<and> q = [])"
| "find_then_dotstar (c # s) p q =
     ((startsWith (c # s) p \<and> dotstar_then (drop (length p) (c # s)) q) \<or> find_then_dotstar s p q)"

definition test_upgrade_plan :: "string \<Rightarrow> bool" where
  "test_upgrade_plan s = find_then_dotstar (map canonicalize s) ''UPGRADE'' ''PLAN''"

definition test_free_not_supported :: "string \<Rightarrow> bool" where
  "test_free_not_supported s = find_then_dotstar (map canonicalize s) ''FREE'' ''NOT SUPPORTED''"

subsection \<open>Conversions\<close>

text \<open>\<^verbatim>\<open>Boolean(v)\<close>: the falsy values are undefined, null, false, 0, NaN, 0n and "".\<close>

fun truthy :: "jsval \<Rightarrow> bool" where
  "truthy VUndefined = False"
| "truthy VNull = False"
| "truthy (VBool b) = b"
| "truthy (VNum x) = (x \<noteq> NaN \<and> x \<noteq> Fin 0)"
| "truthy (VBigInt i) = (i \<noteq> 0)"
| "truthy (VStr s) = (s \<noteq> [])"
| "truthy (VArr xs) = True"
| "truthy (VObj ps) = True"

text \<open>
  \<^verbatim>\<open>String(v)\<close>. An array prints its elements joined by commas, with null and undefined
  elements printed as nothing; an object prints as \<^verbatim>\<open>[object Object]\<close>.
\<close>

fun ToString :: "runtime \<Rightarrow> jsval \<Rightarrow> string" where
  "ToString rt VUndefined = ''undefined''"
| "ToString rt VNull = ''null''"
| "ToString rt (VBool b) = (if b then ''true'' else ''false'')"
| "ToString rt (VNum x) = Number_toString rt x"
| "ToString rt (VBigInt i) = int_toString i"
| "ToString rt (VStr s) = s"
| "ToString rt (VArr xs) =
     join '','' (map (\<lambda>x. if x = VUndefined \<or> x = VNull then [] else ToString rt x) xs)"
| "ToString rt (VObj ps) = ''[object Object]''"

text \<open>\<^verbatim>\<open>a || b\<close> on values.\<close>

definition js_or :: "jsval \<Rightarrow> jsval \<Rightarrow> jsval" where
  "js_or a b = (if truthy a then a else b)"

text \<open>
  \<^verbatim>\<open>data.name\<close> for one of the names \<^verbatim>\<open>status\<close>, \<^verbatim>\<open>message\<close>, \<^verbatim>\<open>result\<close>, on a
  value that is neither null nor undefined (on those the access throws a TypeError): the
  property of an object, and \<^verbatim>\<open>undefined\<close> on every other value (strings, numbers,
  booleans and arrays have no property of these names).
\<close>

definition nullish :: "jsval \<Rightarrow> bool" where
  "nullish v = (v = VNull \<or> v = VUndefined)"

definition get_prop :: "jsval \<Rightarrow> string \<Rightarrow> jsval" where
  "get_prop v name =
     (case v of
        VObj ps \<Rightarrow> (case map_of ps name of Some x \<Rightarrow> x | None \<Rightarrow> VUndefined)
      | _ \<Rightarrow> VUndefined)"

text \<open>
  The message of the TypeError that Node (V8) throws when a property is read from
  \<^verbatim>\<open>undefined\<close> or \<^verbatim>\<open>null\<close>, e.g.
  \<^verbatim>\<open>Cannot read properties of undefined (reading 'toLowerCase')\<close>, and the outcome of the
  method call \<^verbatim>\<open>v.name()\<close> on a value that has no method of that name: on
  \<^verbatim>\<open>undefined\<close> and \<^verbatim>\<open>null\<close> the read throws, on every other value the call does.
\<close>

definition cannot_read_properties :: "string \<Rightarrow> string \<Rightarrow> string" where
  "cannot_read_properties of_what name =
     ''Cannot read properties of '' @ of_what @ '' (reading '' @ [CHR 0x27] @ name @ [CHR 0x27] @ '')''"

definition no_such_method :: "string \<Rightarrow> jsval \<Rightarrow> string \<Rightarrow> string" where
  "no_such_method expr v name =
     (case v of
        VUndefined \<Rightarrow> cannot_read_properties ''undefined'' name
      | VNull \<Rightarrow> cannot_read_properties ''null'' name
      | _ \<Rightarrow> expr @ ''.'' @ name @ '' is not a function'')"



section \<open>The rate limiter registry (src/core/transport.ts, GlobalRateLimiterRegistry)\<close>

text \<open>
  The registry is a static \<^verbatim>\<open>Map<string, { limiter, refCount }>\<close>. A JavaScript Map keeps
  its keys unique and in insertion order, which is an association list updated in place
  (\<open>AList.update\<close>) and deleted from by key (\<open>AList.delete\<close>). The Bottleneck limiters are
  objects with identity: they live in a heap (a list), and a limiter is referred to by its
  index there, so that "the same limiter instance" is "the same reference".

  \<open>hashKey\<close> is \<^verbatim>\<open>createHash('sha256').update(key).digest('hex')\<close> of Node's crypto
  module; it is a parameter of the model. Two credentials with the same hash are one
  key of the registry.
\<close>

record limiter_options =
  minTime :: jsnum
  maxConcurrent :: nat
  reservoir :: int
  reservoirRefreshAmount :: int
  reservoirRefreshInterval :: int

text \<open>
  A limiter object: the options it was constructed with, and the calls of
  \<^verbatim>\<open>stop({ dropWaitingJobs })\<close> made on it (the flag of each call, oldest first).
\<close>

record limiter_obj =
  options :: limiter_options
  stop_calls :: "bool list"

record registry =
  limiters :: "(string \<times> (nat \<times> int)) list"
  limiter_heap :: "limiter_obj list"

definition empty_registry :: registry where
  "empty_registry = \<lparr>limiters = [], limiter_heap = []\<rparr>"

text \<open>
  \<^verbatim>\<open>Math.ceil(1000 / reqPerSec)\<close>. The division is the division of doubles, which rounds
  its quotient: it is the parameter \<open>fdiv\<close> (so \<open>fdiv 1000 0\<close> is \<^verbatim>\<open>Infinity\<close>).
  \<^verbatim>\<open>Math.ceil\<close> is exact on a double.
\<close>

definition Math_ceil :: "jsnum \<Rightarrow> jsnum" where
  "Math_ceil x = (case x of Fin q \<Rightarrow> Fin (of_int \<lceil>q\<rceil>) | _ \<Rightarrow> x)"

definition new_Bottleneck :: "(rat \<Rightarrow> rat \<Rightarrow> jsnum) \<Rightarrow> rat \<Rightarrow> int \<Rightarrow> int \<Rightarrow> limiter_obj" where
  "new_Bottleneck fdiv reqPerSec rsv interval =
     \<lparr>options = \<lparr>minTime = Math_ceil (fdiv 1000 reqPerSec), maxConcurrent = 2, reservoir = rsv,
                  reservoirRefreshAmount = rsv, reservoirRefreshInterval = interval\<rparr>,
      stop_calls = []\<rparr>"

text \<open>\<^verbatim>\<open>getLimiter\<close> returns the limiter (its reference) and the registry after the call.\<close>

definition getLimiter ::
  "(string \<Rightarrow> string) \<Rightarrow> (rat \<Rightarrow> rat \<Rightarrow> jsnum) \<Rightarrow> registry \<Rightarrow> string \<Rightarrow> rat \<Rightarrow> int \<Rightarrow> int \<Rightarrow>
   nat \<times> registry" where
  "getLimiter hashKey fdiv reg apiKey reqPerSec rsv interval =
     (let keyHash = hashKey apiKey in
      case map_of (limiters reg) keyHash of
        None \<Rightarrow>
          (let ref = length (limiter_heap reg) in
           (ref, \<lparr>limiters = AList.update keyHash (ref, 1) (limiters reg),
                  limiter_heap = limiter_heap reg @ [new_Bottleneck fdiv reqPerSec rsv interval]\<rparr>))
      | Some (ref, refCount) \<Rightarrow>
          (ref, reg\<lparr>limiters := AList.update keyHash (ref, refCount + 1) (limiters reg)\<rparr>))"

definition stop_limiter :: "bool \<Rightarrow> nat \<Rightarrow> limiter_obj list \<Rightarrow> limiter_obj list" where
  "stop_limiter dropWaitingJobs ref h =
     (if ref < length h
      then h[ref := (h ! ref)\<lparr>stop_calls := stop_calls (h ! ref) @ [dropWaitingJobs]\<rparr>]
      else h)"

definition cleanup :: "(string \<Rightarrow> string) \<Rightarrow> registry \<Rightarrow> string \<Rightarrow> registry" where
  "cleanup hashKey reg apiKey =
     (let keyHash = hashKey apiKey in
      case map_of (limiters reg) keyHash of
        None \<Rightarrow> reg
      | Some (ref, refCount) \<Rightarrow>
          (if refCount - 1 \<le> 0
           then \<lparr>limiters = AList.delete keyHash (limiters reg),
                 limiter_heap = stop_limiter False ref (limiter_heap reg)\<rparr>
           else reg\<lparr>limiters := AList.update keyHash (ref, refCount - 1) (limiters reg)\<rparr>))"

text \<open>
  The registries the program can reach: it starts empty, and only \<^verbatim>\<open>getLimiter\<close> (from
  the Transport constructor) and \<^verbatim>\<open>cleanup\<close> (from \<^verbatim>\<open>dispose\<close>) touch it.
\<close>

inductive reachable_registry :: "(string \<Rightarrow> string) \<Rightarrow> registry \<Rightarrow> bool"
  for hashKey :: "string \<Rightarrow> string" where
  reach_empty: "reachable_registry hashKey empty_registry"
| reach_get: "reachable_registry hashKey reg \<Longrightarrow>
    reachable_registry hashKey (snd (getLimiter hashKey fdiv reg apiKey reqPerSec rsv interval))"
| reach_cleanup: "reachable_registry hashKey reg \<Longrightarrow>
    reachable_registry hashKey (cleanup hashKey reg apiKey)"

definition refCount_of :: "registry \<Rightarrow> string \<Rightarrow> int option" where
  "refCount_of reg keyHash = map_option snd (map_of (limiters reg) keyHash)"

definition limiter_of :: "registry \<Rightarrow> string \<Rightarrow> nat option" where
  "limiter_of reg keyHash = map_option fst (map_of (limiters reg) keyHash)"

definition registry_keys :: "registry \<Rightarrow> string set" where
  "registry_keys reg = fst ` set (limiters reg)"

text \<open>The invariant of the reachable registries, on the map and the heap.\<close>

definition reg_ok :: "(string \<Rightarrow> string) \<Rightarrow> (string \<times> (nat \<times> int)) list \<Rightarrow> limiter_obj list \<Rightarrow> bool" where
  "reg_ok hashKey ls h =
     (distinct (map fst ls) \<and>
      (\<forall>k r n. map_of ls k = Some (r, n) \<longrightarrow>
         1 \<le> n \<and> r < length h \<and> stop_calls (h ! r) = [] \<and> k \<in> range hashKey) \<and>
      (\<forall>k k' r n n'. map_of ls k = Some (r, n) \<longrightarrow> map_of ls k' = Some (r, n') \<longrightarrow> k' = k))"

definition registry_inv :: "(string \<Rightarrow> string) \<Rightarrow> registry \<Rightarrow> bool" where
  "registry_inv hashKey reg = reg_ok hashKey (limiters reg) (limiter_heap reg)"

section \<open>The validated-result cache (LRUCache, lines 627 to 743 of src/core/transport.ts)\<close>

text \<open>
  \<^verbatim>\<open>cache\<close> is a \<^verbatim>\<open>Map<string, CacheEntry<T>>\<close> (an association list, as above) and
  \<^verbatim>\<open>accessOrder\<close> a \<^verbatim>\<open>Set<string>\<close>, which iterates in insertion order: a list
  without duplicates, where \<^verbatim>\<open>add\<close> appends a key that is not there and
  \<^verbatim>\<open>values().next().value\<close> is the head (\<^verbatim>\<open>undefined\<close> when the set is empty).
  \<^verbatim>\<open>Date.now()\<close> is an argument \<open>now\<close> of the operations that read the clock.
  \<^verbatim>\<open>maxSize\<close> is a JavaScript number; the model has the integers.
\<close>

record 'v CacheEntry =
  data :: 'v
  timestamp :: int
  ttl :: int

record CacheConfig =
  maxSize :: int
  defaultTtl :: int
  enabled :: bool

text \<open>\<^verbatim>\<open>Partial<CacheConfig>\<close>: each field is present or not.\<close>

record PartialCacheConfig =
  maxSize_opt :: "int option"
  defaultTtl_opt :: "int option"
  enabled_opt :: "bool option"

record 'v LRUCache =
  cache :: "(string \<times> 'v CacheEntry) list"
  accessOrder :: "string list"
  config :: CacheConfig

definition Set_add :: "string \<Rightarrow> string list \<Rightarrow> string list" where
  "Set_add key xs = (if key \<in> set xs then xs else xs @ [key])"

definition Set_delete :: "string \<Rightarrow> string list \<Rightarrow> string list" where
  "Set_delete key xs = removeAll key xs"

text \<open>\<^verbatim>\<open>{ ...base, ...config }\<close>\<close>

definition spread_config :: "CacheConfig \<Rightarrow> PartialCacheConfig \<Rightarrow> CacheConfig" where
  "spread_config base p =
     \<lparr>maxSize = (case maxSize_opt p of Some m \<Rightarrow> m | None \<Rightarrow> maxSize base),
      defaultTtl = (case defaultTtl_opt p of Some t \<Rightarrow> t | None \<Rightarrow> defaultTtl base),
      enabled = (case enabled_opt p of Some e \<Rightarrow> e | None \<Rightarrow> enabled base)\<rparr>"

definition no_config :: PartialCacheConfig where
  "no_config = \<lparr>maxSize_opt = None, defaultTtl_opt = None, enabled_opt = None\<rparr>"

definition new_LRUCache :: "PartialCacheConfig \<Rightarrow> 'v LRUCache" where
  "new_LRUCache p =
     \<lparr>cache = [], accessOrder = [],
      config = spread_config \<lparr>maxSize = 1000, defaultTtl = 5 * 60 * 1000, enabled = True\<rparr> p\<rparr>"

text \<open>\<^verbatim>\<open>delete(key)\<close>: whether the key was there, and the cache after the call.\<close>

definition LRU_delete :: "'v LRUCache \<Rightarrow> string \<Rightarrow> bool \<times> 'v LRUCache" where
  "LRU_delete c key =
     (let deleted = (map_of (cache c) key \<noteq> None);
          c1 = c\<lparr>cache := AList.delete key (cache c)\<rparr>
      in if deleted then (True, c1\<lparr>accessOrder := Set_delete key (accessOrder c1)\<rparr>)
         else (False, c1))"

text \<open>\<^verbatim>\<open>get(key)\<close>: \<open>None\<close> is the \<^verbatim>\<open>null\<close> of a miss.\<close>

definition LRU_get :: "'v LRUCache \<Rightarrow> int \<Rightarrow> string \<Rightarrow> 'v option \<times> 'v LRUCache" where
  "LRU_get c now key =
     (if \<not> enabled (config c) then (None, c)
      else case map_of (cache c) key of
        None \<Rightarrow> (None, c)
      | Some entry \<Rightarrow>
          (if now - timestamp entry > ttl entry then (None, snd (LRU_delete c key))
           else (Some (data entry),
                 c\<lparr>accessOrder := Set_add key (Set_delete key (accessOrder c))\<rparr>)))"

text \<open>
  \<^verbatim>\<open>set(key, value, ttl?)\<close>. The eviction guard \<^verbatim>\<open>if (lruKey)\<close> is a truthiness test:
  it fails on \<^verbatim>\<open>undefined\<close> (an empty set) and on the empty string.
\<close>

definition LRU_set :: "'v LRUCache \<Rightarrow> int \<Rightarrow> string \<Rightarrow> 'v \<Rightarrow> int option \<Rightarrow> 'v LRUCache" where
  "LRU_set c now key val ttl_arg =
     (if \<not> enabled (config c) then c
      else
        let entry = \<lparr>data = val, timestamp = now,
                     ttl = (case ttl_arg of Some t \<Rightarrow> t | None \<Rightarrow> defaultTtl (config c))\<rparr>
        in if map_of (cache c) key \<noteq> None
           then c\<lparr>cache := AList.update key entry (cache c),
                  accessOrder := Set_add key (Set_delete key (accessOrder c))\<rparr>
           else
             let c1 = (if int (length (cache c)) \<ge> maxSize (config c)
                       then (case accessOrder c of
                               [] \<Rightarrow> c
                             | lruKey # _ \<Rightarrow>
                                 (if lruKey \<noteq> []
                                  then c\<lparr>cache := AList.delete lruKey (cache c),
                                         accessOrder := Set_delete lruKey (accessOrder c)\<rparr>
                                  else c))
                       else c)
             in c1\<lparr>cache := AList.update key entry (cache c1),
                    accessOrder := Set_add key (accessOrder c1)\<rparr>)"

definition LRU_clear :: "'v LRUCache \<Rightarrow> 'v LRUCache" where
  "LRU_clear c = c\<lparr>cache := [], accessOrder := []\<rparr>"

definition LRU_size :: "'v LRUCache \<Rightarrow> nat" where
  "LRU_size c = length (cache c)"

text \<open>\<^verbatim>\<open>cleanup()\<close> visits the entries in order and deletes the expired ones.\<close>

definition LRU_cleanup :: "'v LRUCache \<Rightarrow> int \<Rightarrow> 'v LRUCache" where
  "LRU_cleanup c now =
     foldl (\<lambda>c1 (key, entry). if now - timestamp entry > ttl entry then snd (LRU_delete c1 key) else c1)
       c (cache c)"

definition LRU_stats :: "'v LRUCache \<Rightarrow> nat \<times> int \<times> bool" where
  "LRU_stats c = (length (cache c), maxSize (config c), enabled (config c))"

text \<open>
  The loop of \<^verbatim>\<open>updateConfig\<close>,
  \<^verbatim>\<open>while (this.cache.size > this.config.maxSize) { lruKey = first; if (lruKey) this.delete(lruKey) }\<close>,
  makes no progress when the access order is empty or starts with the empty string, and
  then runs forever: the result is \<open>None\<close>.
\<close>

partial_function (option) evict_excess :: "'v LRUCache \<Rightarrow> 'v LRUCache option" where
  "evict_excess c =
     (if int (length (cache c)) > maxSize (config c)
      then (case accessOrder c of
              [] \<Rightarrow> evict_excess c
            | lruKey # _ \<Rightarrow>
                (if lruKey \<noteq> [] then evict_excess (snd (LRU_delete c lruKey))
                 else evict_excess c))
      else Some c)"

declare evict_excess.simps [code]

definition LRU_updateConfig :: "'v LRUCache \<Rightarrow> PartialCacheConfig \<Rightarrow> 'v LRUCache option" where
  "LRU_updateConfig c p =
     (let c1 = c\<lparr>config := spread_config (config c) p\<rparr>;
          c2 = (if \<not> enabled (config c1) then LRU_clear c1 else c1)
      in evict_excess c2)"

text \<open>
  The invariant that ties the map to the access order: the same keys, none twice, none
  empty.
\<close>

definition lru_wf :: "'v LRUCache \<Rightarrow> bool" where
  "lru_wf c =
     (distinct (map fst (cache c)) \<and> distinct (accessOrder c) \<and>
      set (accessOrder c) = fst ` set (cache c) \<and> [] \<notin> set (accessOrder c))"

text \<open>The operations of the cache, for runs of them; \<open>None\<close> when one does not return.\<close>

datatype 'v lru_op =
    OpSet int string 'v "int option"
  | OpGet int string
  | OpDelete string
  | OpClear
  | OpUpdateConfig PartialCacheConfig

fun lru_apply :: "'v LRUCache \<Rightarrow> 'v lru_op \<Rightarrow> 'v LRUCache option" where
  "lru_apply c (OpSet now key val ttl_arg) = Some (LRU_set c now key val ttl_arg)"
| "lru_apply c (OpGet now key) = Some (snd (LRU_get c now key))"
| "lru_apply c (OpDelete key) = Some (snd (LRU_delete c key))"
| "lru_apply c OpClear = Some (LRU_clear c)"
| "lru_apply c (OpUpdateConfig p) = LRU_updateConfig c p"

fun lru_run :: "'v LRUCache \<Rightarrow> 'v lru_op list \<Rightarrow> 'v LRUCache option" where
  "lru_run c [] = Some c"
| "lru_run c (x # xs) = (case lru_apply c x of None \<Rightarrow> None | Some c1 \<Rightarrow> lru_run c1 xs)"

text \<open>
  A run that stays in the part of the input space where eviction works: keys are not
  empty and every capacity it configures is at least 1.
\<close>

fun op_ok :: "'v lru_op \<Rightarrow> bool" where
  "op_ok (OpSet now key val ttl_arg) = (key \<noteq> [])"
| "op_ok (OpUpdateConfig p) = (case maxSize_opt p of None \<Rightarrow> True | Some m \<Rightarrow> 1 \<le> m)"
| "op_ok _ = True"


definition lru_bounded :: "'v LRUCache \<Rightarrow> bool" where
  "lru_bounded c =
     (lru_wf c \<and> int (length (cache c)) \<le> maxSize (config c) \<and> 1 \<le> maxSize (config c))"

definition cache_keys :: "'v LRUCache \<Rightarrow> string set" where
  "cache_keys c = fst ` set (cache c)"

section \<open>Request deduplication (RequestDeduplicator, lines 748 to 775 of src/core/transport.ts)\<close>

text \<open>
  \<^verbatim>\<open>pendingRequests\<close> is a \<^verbatim>\<open>Map<string, Promise<any>>\<close>. Promises are objects with
  identity and a settlement that arrives later, so they live in a heap: a promise is its
  index there, and its cell holds the key that the \<^verbatim>\<open>finally\<close> callback of
  \<^verbatim>\<open>requestFn().finally(() => this.pendingRequests.delete(key))\<close> has captured, and
  its settlement (\<open>None\<close> while pending, \<open>Some r\<close> once settled with outcome \<open>r\<close>, a
  success or a failure). Every caller that was handed promise \<open>p\<close> observes the settlement of
  cell \<open>p\<close>. (\<^verbatim>\<open>deduplicate\<close> is an \<^verbatim>\<open>async\<close> function: what it hands out is a promise
  resolved with the registered one, which settles as the registered one does; the model
  identifies the two.) \<open>factory_log\<close> records each invocation of a \<^verbatim>\<open>requestFn\<close>, by key.
\<close>

record 'r dedup =
  pendingRequests :: "(string \<times> nat) list"
  promise_heap :: "(string \<times> 'r option) list"
  factory_log :: "string list"




definition dedup_clear :: "'r dedup \<Rightarrow> 'r dedup" where
  "dedup_clear d = d\<lparr>pendingRequests := []\<rparr>"

definition dedup_size :: "'r dedup \<Rightarrow> nat" where
  "dedup_size d = length (pendingRequests d)"

definition dedup_destroy :: "'r dedup \<Rightarrow> 'r dedup" where
  "dedup_destroy d = dedup_clear d"












section \<open>Errors (src/core/errors.ts)\<close>

text \<open>
  What a call can throw. The classes of errors.ts carry the arguments of their
  constructors: \<^verbatim>\<open>EtherscanError(message, status, code)\<close>, \<^verbatim>\<open>APIError(message, result)\<close>
  (the message as given, before \<^verbatim>\<open>sanitizeMessage\<close>), \<^verbatim>\<open>RateLimitError()\<close>,
  \<^verbatim>\<open>ValidationError(message)\<close>; \<^verbatim>\<open>PlanUpgradeRequired(message, result)\<close> is imported by
  transport.ts. \<open>JsError name message\<close> is any other \<^verbatim>\<open>Error\<close> object (a plain
  \<^verbatim>\<open>Error\<close>, a TypeError or SyntaxError of the runtime).
\<close>

datatype error =
    EtherscanError string int string
  | APIError string jsval
  | RateLimitError
  | PlanUpgradeRequired jsval jsval
  | ValidationError string
  | JsError string string

text \<open>
  \<^verbatim>\<open>new APIError(message, result)\<close> calls \<^verbatim>\<open>message.toLowerCase()\<close> in
  \<^verbatim>\<open>sanitizeMessage\<close>: when the message is not a string the constructor throws a
  TypeError, and that is what the caller sees. (A value parsed from JSON has no function
  among its properties, so an object or an array has no method \<^verbatim>\<open>toLowerCase\<close> either.)
\<close>

definition new_APIError :: "jsval \<Rightarrow> jsval \<Rightarrow> error" where
  "new_APIError message result =
     (case message of
        VStr m \<Rightarrow> APIError m result
      | _ \<Rightarrow> JsError ''TypeError'' (no_such_method ''message'' message ''toLowerCase''))"

section \<open>The transport (src/core/transport.ts, Transport)\<close>

definition V2_ENDPOINT :: string where
  "V2_ENDPOINT = ''https://api.etherscan.io/v2/api''"

text \<open>
  What \<^verbatim>\<open>fetch\<close> rejects with: an \<^verbatim>\<open>Error\<close> object (its name and message), or a value
  that is not an \<^verbatim>\<open>Error\<close>. What it resolves with: a response, of which the transport
  reads \<^verbatim>\<open>ok\<close>, \<^verbatim>\<open>status\<close>, \<^verbatim>\<open>statusText\<close>, the two headers (\<open>None\<close> when
  \<^verbatim>\<open>headers.get\<close> returns null) and \<^verbatim>\<open>text()\<close>.
\<close>

datatype thrown = ErrorObject string string | OtherValue

record Response =
  ok :: bool
  status :: int
  statusText :: string
  content_type :: "string option"
  content_length :: "string option"
  body_text :: string

text \<open>The calls the transport makes on the network and the clock, in order.\<close>

datatype net_event = Fetch string | Delay int

type_synonym params = "(string \<times> jsval) list"

type_synonym issue = "string list \<times> string"

text \<open>
  A zod schema, as far as the transport uses it: \<^verbatim>\<open>safeParse\<close>, which returns the issues
  (path and message of each) or the parsed data.
\<close>

type_synonym schema = "jsval \<Rightarrow> issue list + jsval"

record InterceptorManager =
  requestInterceptors :: "(params \<Rightarrow> params) list"
  responseInterceptors :: "(jsval \<Rightarrow> jsval) list"

record Transport =
  chainId :: int
  private_apiKey :: string
  ALLOWED_BASE_URLS :: "string list"
  timeout :: int
  maxRetries :: int
  retryDelay :: int
  tcache :: "jsval LRUCache"
  interceptors :: InterceptorManager

definition applyRequestInterceptors :: "InterceptorManager \<Rightarrow> params \<Rightarrow> params" where
  "applyRequestInterceptors im ps = foldl (\<lambda>acc interceptor. interceptor acc) ps (requestInterceptors im)"

definition applyResponseInterceptors :: "InterceptorManager \<Rightarrow> jsval \<Rightarrow> jsval" where
  "applyResponseInterceptors im response =
     foldl (\<lambda>acc interceptor. interceptor acc) response (responseInterceptors im)"

definition isRetryable :: "thrown \<Rightarrow> bool" where
  "isRetryable e =
     (case e of
        ErrorObject name message \<Rightarrow>
          name = ''AbortError'' \<or> str_includes message ''ECONNRESET'' \<or>
          str_includes message ''ETIMEDOUT'' \<or> str_includes message ''ENOTFOUND'' \<or>
          str_includes message ''ECONNREFUSED''
      | OtherValue \<Rightarrow> False)"

text \<open>
  \<^verbatim>\<open>fetchWithRetry(url, retries)\<close>. The network is an oracle: \<open>fetch n\<close> is the outcome
  of the \<open>n\<close>-th call of \<^verbatim>\<open>fetch\<close> for this request (a call that the timeout aborts
  rejects with an AbortError), and \<open>n\<close> counts the calls made so far. The result is what
  the function returns or throws, with the calls of \<^verbatim>\<open>fetch\<close> and \<^verbatim>\<open>delay\<close> it made.
\<close>

function fetchWithRetry ::
  "Transport \<Rightarrow> (nat \<Rightarrow> thrown + Response) \<Rightarrow> string \<Rightarrow> int \<Rightarrow> nat \<Rightarrow> (thrown + Response) \<times> net_event list" where
  "fetchWithRetry t fetch url retries n =
     (case fetch n of
        Inr response \<Rightarrow> (Inr response, [Fetch url])
      | Inl err \<Rightarrow>
          (if retries > 0 \<and> isRetryable err
           then (let (r, evs) = fetchWithRetry t fetch url (retries - 1) (Suc n)
                 in (r, Fetch url # Delay (retryDelay t * (maxRetries t - retries + 1)) # evs))
           else (Inl err, [Fetch url])))"
  by pat_completeness auto
termination
  by (relation "measure (\<lambda>(t, fetch, url, retries, n). nat retries)") auto

declare fetchWithRetry.simps [simp del]

text \<open>
  \<^verbatim>\<open>parseInt(s)\<close> on a header value: leading white space, a sign, then the longest
  prefix of digits (hexadecimal after \<^verbatim>\<open>0x\<close>); \<open>None\<close> is \<^verbatim>\<open>NaN\<close>.
\<close>

definition digit_table :: "(char \<times> nat) list" where
  "digit_table =
     zip ''0123456789abcdefABCDEF''
       [0, 1, 2, 3, 4, 5, 6, 7, 8, 9, 10, 11, 12, 13, 14, 15, 10, 11, 12, 13, 14, 15]"

definition digit_value :: "nat \<Rightarrow> char \<Rightarrow> nat option" where
  "digit_value radix c =
     (case map_of digit_table c of
        Some d \<Rightarrow> (if d < radix then Some d else None)
      | None \<Rightarrow> None)"

definition digits_value :: "nat \<Rightarrow> string \<Rightarrow> nat" where
  "digits_value radix s = foldl (\<lambda>acc c. acc * radix + the (digit_value radix c)) 0 s"

definition parseInt_unsigned :: "string \<Rightarrow> int option" where
  "parseInt_unsigned s =
     (let hex = (startsWith s ''0x'' \<or> startsWith s ''0X'');
          radix = (if hex then 16 else 10);
          ds = takeWhile (\<lambda>c. digit_value radix c \<noteq> None) (if hex then drop 2 s else s)
      in if ds = [] then None else Some (int (digits_value radix ds)))"

definition parseInt :: "string \<Rightarrow> int option" where
  "parseInt s =
     (let s1 = dropWhile is_whitespace s in
      case s1 of
        [] \<Rightarrow> None
      | c # rest \<Rightarrow>
          (if c = CHR ''-'' then map_option uminus (parseInt_unsigned rest)
           else if c = CHR ''+'' then parseInt_unsigned rest
           else parseInt_unsigned s1))"

definition MAX_RESPONSE_SIZE :: int where
  "MAX_RESPONSE_SIZE = 50 * 1024 * 1024"

text \<open>\<^verbatim>\<open>issues.map(i => `${i.path.join('.')}: ${i.message}`).join('; ')\<close>\<close>

definition format_issues :: "issue list \<Rightarrow> string" where
  "format_issues issues = join ''; '' (map (\<lambda>(path, message). join ''.'' path @ '': '' @ message) issues)"

text \<open>
  The search parameters appended to the URL of the request: \<^verbatim>\<open>chainid\<close> and
  \<^verbatim>\<open>apikey\<close> for the V2 endpoint, then every parameter that is not \<^verbatim>\<open>undefined\<close>, in
  the order of \<^verbatim>\<open>Object.entries\<close>.
\<close>

definition injected_params :: "Transport \<Rightarrow> string \<Rightarrow> (string \<times> string) list" where
  "injected_params t baseUrl =
     (if baseUrl = V2_ENDPOINT
      then [(''chainid'', int_toString (chainId t)), (''apikey'', private_apiKey t)] else [])"

definition request_url :: "runtime \<Rightarrow> Transport \<Rightarrow> string \<Rightarrow> params \<Rightarrow> string" where
  "request_url rt t baseUrl ps =
     URL_toString rt baseUrl
       (injected_params t baseUrl @
        map (\<lambda>(key, v). (key, ToString rt v)) (filter (\<lambda>(key, v). v \<noteq> VUndefined) ps))"

text \<open>
  \<^verbatim>\<open>createCacheKey\<close>: the same, with the keys in the order of
  \<^verbatim>\<open>Object.keys(params).sort()\<close> (by code unit) and each value read as \<^verbatim>\<open>params[key]\<close>.
\<close>

definition createCacheKey :: "runtime \<Rightarrow> Transport \<Rightarrow> string \<Rightarrow> params \<Rightarrow> string" where
  "createCacheKey rt t baseUrl ps =
     URL_toString rt baseUrl
       (injected_params t baseUrl @
        concat (map (\<lambda>key. case map_of ps key of
                             Some v \<Rightarrow> (if v \<noteq> VUndefined then [(key, ToString rt v)] else [])
                           | None \<Rightarrow> [])
                 (sort (map fst ps))))"

text \<open>
  The end of both success paths: \<^verbatim>\<open>this.cache.set(cacheKey, validatedData)\<close>, then
  \<^verbatim>\<open>return this.interceptors.applyResponseInterceptors(validatedData)\<close>.
\<close>

definition cache_and_return :: "Transport \<Rightarrow> int \<Rightarrow> string \<Rightarrow> jsval \<Rightarrow> (error + jsval) \<times> Transport" where
  "cache_and_return t now cacheKey validatedData =
     (Inr (applyResponseInterceptors (interceptors t) validatedData),
      t\<lparr>tcache := LRU_set (tcache t) now cacheKey validatedData None\<rparr>)"

text \<open>
  The envelope of the V2 endpoint (lines 307 to 335): on status \<^verbatim>\<open>'0'\<close> the function
  ends here, returning the empty state or throwing (\<open>Inl\<close>); otherwise the result is
  parsed with the schema and the function goes on (\<open>Inr\<close>). Reading \<^verbatim>\<open>data.status\<close>
  throws a TypeError when the body is \<^verbatim>\<open>null\<close>.
\<close>

definition handle_envelope :: "runtime \<Rightarrow> schema \<Rightarrow> jsval \<Rightarrow> (error + jsval) + (issue list + jsval)" where
  "handle_envelope rt schema json =
     (if nullish json then Inl (Inl (JsError ''TypeError'' ''Cannot read properties''))
      else
          let st = get_prop json ''status'';
              message = get_prop json ''message'';
              result = get_prop json ''result''
          in if st = VStr ''0''
             then
               (if message = VStr ''No transactions found''
                then (case schema (VArr []) of
                        Inr _ \<Rightarrow> Inl (Inr (VArr []))
                      | Inl _ \<Rightarrow> Inl (Inr VNull))
                else if test_rate_limit (ToString rt (js_or result (VStr [])))
                then Inl (Inl RateLimitError)
                else
                  let message1 = js_or message (VStr []);
                      result1 = js_or result (VStr [])
                  in if test_upgrade_plan (ToString rt message1) \<or>
                        test_upgrade_plan (ToString rt result1) \<or>
                        test_free_not_supported (ToString rt result1)
                     then Inl (Inl (PlanUpgradeRequired message1 result1))
                     else Inl (Inl (new_APIError message result)))
             else Inr (schema result))"

text \<open>
  The scheduled function from \<^verbatim>\<open>if (!response.ok)\<close> on (lines 240 to 354 of
  transport.ts, with the envelope above): what it returns or throws, and the transport
  (its cache) afterwards.
  \<open>allowed\<close> is \<^verbatim>\<open>options?.allowedContentTypes || []\<close>.
\<close>

definition handle_response ::
  "runtime \<Rightarrow> Transport \<Rightarrow> int \<Rightarrow> string \<Rightarrow> string \<Rightarrow> schema \<Rightarrow> string list \<Rightarrow> Response \<Rightarrow>
   (error + jsval) \<times> Transport" where
  "handle_response rt t now baseUrl cacheKey schema allowed response =
     (if \<not> ok response
      then (Inl (EtherscanError
                  (''HTTP '' @ int_toString (status response) @ '': '' @ statusText response)
                  (status response) ''UNKNOWN_ERROR''), t)
      else
        let contentType = content_type response;
            allowedTypes = ''application/json'' # allowed;
            isAllowedType =
              list_ex (\<lambda>ty. case contentType of None \<Rightarrow> False | Some ct \<Rightarrow> str_includes ct ty)
                allowedTypes
        in if \<not> isAllowedType
           then (Inl (EtherscanError
                       (''Invalid response content-type: '' @
                        (case contentType of None \<Rightarrow> ''null'' | Some ct \<Rightarrow> ct) @
                        ''. Allowed: '' @ join '', '' allowedTypes)
                       500 ''INVALID_CONTENT_TYPE''), t)
           else if (case content_length response of
                      None \<Rightarrow> False
                    | Some cl \<Rightarrow>
                        cl \<noteq> [] \<and>
                        (case parseInt cl of None \<Rightarrow> False | Some n \<Rightarrow> n > MAX_RESPONSE_SIZE))
           then (Inl (EtherscanError ''Response size exceeds maximum allowed'' 413
                       ''RESPONSE_TOO_LARGE''), t)
           else
             let text = body_text response
             in if int (length text) > MAX_RESPONSE_SIZE
                then (Inl (EtherscanError ''Response size exceeds maximum allowed'' 413
                            ''RESPONSE_TOO_LARGE''), t)
                else if \<not> (case contentType of None \<Rightarrow> False
                             | Some ct \<Rightarrow> str_includes ct ''application/json'')
                then (case schema (VStr text) of
                        Inl issues \<Rightarrow>
                          (Inl (ValidationError (''Failed to parse response: '' @ format_issues issues)), t)
                      | Inr validatedData \<Rightarrow> cache_and_return t now cacheKey validatedData)
                else
                  (case JSON_parse rt text of
                     None \<Rightarrow> (Inl (JsError ''SyntaxError'' ''JSON.parse''), t)
                   | Some json \<Rightarrow>
                       (case (if baseUrl = V2_ENDPOINT then handle_envelope rt schema json
                              else Inr (schema json)) of
                          Inl early \<Rightarrow> (early, t)
                        | Inr (Inl issues) \<Rightarrow>
                            (Inl (ValidationError
                                    (''Failed to parse Etherscan response: '' @ format_issues issues)), t)
                        | Inr (Inr validatedData) \<Rightarrow> cache_and_return t now cacheKey validatedData)))"

text \<open>
  The function given to \<^verbatim>\<open>limiter.schedule\<close> (lines 214 to 355): the URL, the fetch with
  its retries, the translation of a network failure, then the response. It returns the
  outcome, the transport afterwards and the network events. \<open>later\<close> is the clock when
  the result is stored.
\<close>

definition scheduled_request ::
  "runtime \<Rightarrow> Transport \<Rightarrow> int \<Rightarrow> (nat \<Rightarrow> thrown + Response) \<Rightarrow> string \<Rightarrow> params \<Rightarrow> string \<Rightarrow>
   schema \<Rightarrow> string list \<Rightarrow> (error + jsval) \<times> Transport \<times> net_event list" where
  "scheduled_request rt t later fetch baseUrl interceptedParams cacheKey schema allowed =
     (let url = request_url rt t baseUrl interceptedParams in
      case fetchWithRetry t fetch url (maxRetries t) 0 of
        (Inl err, evs) \<Rightarrow>
          (case err of
             ErrorObject name message \<Rightarrow>
               (if name = ''AbortError''
                then (Inl (EtherscanError ''Request Timeout'' 408 ''TIMEOUT_ERROR''), t, evs)
                else (Inl (EtherscanError ''Network Error'' 0 ''NETWORK_ERROR''), t, evs))
           | OtherValue \<Rightarrow> (Inl (EtherscanError ''Network Error'' 0 ''NETWORK_ERROR''), t, evs))
      | (Inr response, evs) \<Rightarrow>
          (case handle_response rt t later baseUrl cacheKey schema allowed response of
             (r, t1) \<Rightarrow> (r, t1, evs)))"

definition isAllowed :: "runtime \<Rightarrow> Transport \<Rightarrow> string \<Rightarrow> bool" where
  "isAllowed rt t baseUrl =
     list_ex (\<lambda>allowed.
        case parse_URL rt allowed of
          None \<Rightarrow> False
        | Some (allowedOrigin, _) \<Rightarrow>
            (case parse_URL rt baseUrl of
               None \<Rightarrow> False
             | Some (requestOrigin, _) \<Rightarrow> requestOrigin = allowedOrigin))
       (ALLOWED_BASE_URLS t)"

text \<open>
  \<^verbatim>\<open>getWithUrl(baseUrl, params, schema, options)\<close>, for a call that finds no request with
  the same key in flight (so that \<^verbatim>\<open>deduplicate\<close> invokes its factory) and whose
  scheduled function the limiter runs. \<open>opts\<close> is \<^verbatim>\<open>options?.allowedContentTypes\<close>.
  A cached \<^verbatim>\<open>null\<close> is a miss for \<^verbatim>\<open>cachedResult !== null\<close>.
\<close>

definition getWithUrl ::
  "runtime \<Rightarrow> Transport \<Rightarrow> int \<Rightarrow> int \<Rightarrow> (nat \<Rightarrow> thrown + Response) \<Rightarrow> string \<Rightarrow> params \<Rightarrow>
   schema \<Rightarrow> string list option \<Rightarrow> (error + jsval) \<times> Transport \<times> net_event list" where
  "getWithUrl rt t now later fetch baseUrl ps schema opts =
     (if \<not> isAllowed rt t baseUrl
      then (Inl (EtherscanError ''Invalid API endpoint - URL not in allowlist'' 400
                  ''INVALID_ENDPOINT''), t, [])
      else case parse_URL rt baseUrl of
        None \<Rightarrow> (Inl (JsError ''TypeError'' ''Invalid URL''), t, [])
      | Some (origin, protocol) \<Rightarrow>
          (if protocol \<noteq> ''https:''
           then (Inl (EtherscanError ''Insecure protocol detected - only HTTPS allowed'' 400
                       ''INSECURE_PROTOCOL''), t, [])
           else
             let interceptedParams = applyRequestInterceptors (interceptors t) ps;
                 cacheKey = createCacheKey rt t baseUrl interceptedParams;
                 (cachedResult, cache1) = LRU_get (tcache t) now cacheKey;
                 t1 = t\<lparr>tcache := cache1\<rparr>
             in if cachedResult \<noteq> None \<and> cachedResult \<noteq> Some VNull
                then (Inr (applyResponseInterceptors (interceptors t) (the cachedResult)), t1, [])
                else scheduled_request rt t1 later fetch baseUrl interceptedParams cacheKey schema
                       (case opts of None \<Rightarrow> [] | Some a \<Rightarrow> a)))"

text \<open>\<^verbatim>\<open>get(params, schema, options)\<close>\<close>

definition transport_get ::
  "runtime \<Rightarrow> Transport \<Rightarrow> int \<Rightarrow> int \<Rightarrow> (nat \<Rightarrow> thrown + Response) \<Rightarrow> params \<Rightarrow>
   schema \<Rightarrow> string list option \<Rightarrow> (error + jsval) \<times> Transport \<times> net_event list" where
  "transport_get rt t now later fetch ps schema opts =
     getWithUrl rt t now later fetch V2_ENDPOINT ps schema opts"

text \<open>The constructor, without the limiter (which the registry above hands out).\<close>

definition new_Transport :: "int \<Rightarrow> string \<Rightarrow> int \<Rightarrow> int \<Rightarrow> int \<Rightarrow> string list \<Rightarrow> Transport" where
  "new_Transport chain key tmo retries delay allowedBaseUrls =
     \<lparr>chainId = chain, private_apiKey = key, ALLOWED_BASE_URLS = allowedBaseUrls, timeout = tmo,
      maxRetries = retries, retryDelay = delay, tcache = new_LRUCache no_config,
      interceptors = \<lparr>requestInterceptors = [], responseInterceptors = []\<rparr>\<rparr>"

definition addRequestInterceptor :: "Transport \<Rightarrow> (params \<Rightarrow> params) \<Rightarrow> Transport" where
  "addRequestInterceptor t f =
     t\<lparr>interceptors := (interceptors t)\<lparr>requestInterceptors := requestInterceptors (interceptors t) @ [f]\<rparr>\<rparr>"

definition addResponseInterceptor :: "Transport \<Rightarrow> (jsval \<Rightarrow> jsval) \<Rightarrow> Transport" where
  "addResponseInterceptor t f =
     t\<lparr>interceptors := (interceptors t)\<lparr>responseInterceptors := responseInterceptors (interceptors t) @ [f]\<rparr>\<rparr>"

text \<open>A runtime for evaluating the model on concrete inputs: it parses one body.\<close>

definition test_runtime :: "string \<Rightarrow> jsval \<Rightarrow> runtime" where
  "test_runtime text json =
     \<lparr>parse_URL = (\<lambda>s. if startsWith s ''https://api.etherscan.io''
                        then Some (''https://api.etherscan.io'', ''https:'') else None),
      URL_toString = (\<lambda>base ps. base @ ''?'' @ join ''&'' (map (\<lambda>(k, v). k @ ''='' @ v) ps)),
      JSON_parse = (\<lambda>s. if s = text then Some json else None),
      Number_frac_toString = (\<lambda>q. ''?'')\<rparr>"

definition json_response :: "string \<Rightarrow> Response" where
  "json_response text =
     \<lparr>ok = True, status = 200, statusText = ''OK'', content_type = Some ''application/json'',
      content_length = None, body_text = text\<rparr>"

text \<open>Reading a run: the number of calls of \<^verbatim>\<open>fetch\<close>, and the waits in order.\<close>

fun attempts :: "net_event list \<Rightarrow> nat" where
  "attempts [] = 0"
| "attempts (Fetch url # evs) = Suc (attempts evs)"
| "attempts (Delay ms # evs) = attempts evs"

fun delays :: "net_event list \<Rightarrow> int list" where
  "delays [] = []"
| "delays (Fetch url # evs) = delays evs"
| "delays (Delay ms # evs) = ms # delays evs"


text \<open>
  A call of \<^verbatim>\<open>getWithUrl\<close> on the canonical endpoint that gets as far as the envelope:
  the endpoint is allowed and HTTPS, the cache misses, the fetch (with its retries) ends
  in a response, the response is \<^verbatim>\<open>ok\<close>, declares JSON, is within the size budget, and
  its body parses to \<open>json\<close>.
\<close>

definition within_size_budget :: "Response \<Rightarrow> bool" where
  "within_size_budget response =
     (\<not> (case content_length response of
            None \<Rightarrow> False
          | Some cl \<Rightarrow>
              cl \<noteq> [] \<and> (case parseInt cl of None \<Rightarrow> False | Some n \<Rightarrow> n > MAX_RESPONSE_SIZE)) \<and>
      int (length (body_text response)) \<le> MAX_RESPONSE_SIZE)"

definition declares_json :: "Response \<Rightarrow> bool" where
  "declares_json response =
     (case content_type response of None \<Rightarrow> False | Some ct \<Rightarrow> str_includes ct ''application/json'')"

definition canonical_envelope ::
  "runtime \<Rightarrow> Transport \<Rightarrow> int \<Rightarrow> (nat \<Rightarrow> thrown + Response) \<Rightarrow> params \<Rightarrow> jsval \<Rightarrow> bool" where
  "canonical_envelope rt t now fetch ps json =
     (isAllowed rt t V2_ENDPOINT \<and>
      map_option snd (parse_URL rt V2_ENDPOINT) = Some ''https:'' \<and>
      (let interceptedParams = applyRequestInterceptors (interceptors t) ps;
           cachedResult = fst (LRU_get (tcache t) now (createCacheKey rt t V2_ENDPOINT interceptedParams))
       in (cachedResult = None \<or> cachedResult = Some VNull) \<and>
          (case fst (fetchWithRetry t fetch (request_url rt t V2_ENDPOINT interceptedParams)
                       (maxRetries t) 0) of
             Inl err \<Rightarrow> False
           | Inr response \<Rightarrow>
               ok response \<and> declares_json response \<and> within_size_budget response \<and>
               JSON_parse rt (body_text response) = Some json)))"

text \<open>Concrete inputs: a transport with the default allowlist, and three envelopes.\<close>

definition demo_transport :: Transport where
  "demo_transport = new_Transport 1 ''key'' 30000 3 1000 [''https://api.etherscan.io'']"

definition envelope :: "string \<Rightarrow> string \<Rightarrow> jsval \<Rightarrow> jsval" where
  "envelope st message result =
     VObj [(''status'', VStr st), (''message'', VStr message), (''result'', result)]"

definition demo_fetch :: "nat \<Rightarrow> thrown + Response" where
  "demo_fetch n = Inr (json_response ''{}'')"


section \<open>Schemas (src/core/types.ts)\<close>

text \<open>
  The zod combinators the schemas below are built from, as \<^verbatim>\<open>safeParse\<close> functions:
  \<^verbatim>\<open>z.string()\<close>, \<^verbatim>\<open>z.array(s)\<close> and \<^verbatim>\<open>z.object(shape)\<close> (which keeps the keys of the
  shape, in its order, and drops the others). An issue is its path and its message; the
  messages are those of zod's default error map.
\<close>

fun zod_type :: "jsval \<Rightarrow> string" where
  "zod_type VUndefined = ''undefined''"
| "zod_type VNull = ''null''"
| "zod_type (VBool b) = ''boolean''"
| "zod_type (VNum x) = (if x = NaN then ''nan'' else ''number'')"
| "zod_type (VBigInt i) = ''bigint''"
| "zod_type (VStr s) = ''string''"
| "zod_type (VArr xs) = ''array''"
| "zod_type (VObj ps) = ''object''"

definition invalid_type :: "string \<Rightarrow> jsval \<Rightarrow> issue" where
  "invalid_type expected v =
     ([], if v = VUndefined then ''Required''
          else ''Expected '' @ expected @ '', received '' @ zod_type v)"

definition z_string :: schema where
  "z_string v = (case v of VStr s \<Rightarrow> Inr (VStr s) | _ \<Rightarrow> Inl [invalid_type ''string'' v])"

definition at_path :: "string \<Rightarrow> issue \<Rightarrow> issue" where
  "at_path key i = (key # fst i, snd i)"

text \<open>The results of the parts, in order: all the issues if there are any, else the data.\<close>

fun collect :: "(string \<times> (issue list + jsval)) list \<Rightarrow> issue list + (string \<times> jsval) list" where
  "collect [] = Inr []"
| "collect ((key, r) # rest) =
     (case (r, collect rest) of
        (Inl issues, Inl others) \<Rightarrow> Inl (map (at_path key) issues @ others)
      | (Inl issues, Inr outs) \<Rightarrow> Inl (map (at_path key) issues)
      | (Inr out, Inl others) \<Rightarrow> Inl others
      | (Inr out, Inr outs) \<Rightarrow> Inr ((key, out) # outs))"

definition z_array :: "schema \<Rightarrow> schema" where
  "z_array item v =
     (case v of
        VArr xs \<Rightarrow>
          (case collect (map (\<lambda>(i, x). (nat_toString i, item x)) (zip [0 ..< length xs] xs)) of
             Inl issues \<Rightarrow> Inl issues
           | Inr outs \<Rightarrow> Inr (VArr (map snd outs)))
      | _ \<Rightarrow> Inl [invalid_type ''array'' v])"

definition z_object :: "(string \<times> schema) list \<Rightarrow> schema" where
  "z_object shape v =
     (case v of
        VObj ps \<Rightarrow>
          (case collect (map (\<lambda>(key, s). (key, s (get_prop v key))) shape) of
             Inl issues \<Rightarrow> Inl issues
           | Inr outs \<Rightarrow> Inr (VObj outs))
      | _ \<Rightarrow> Inl [invalid_type ''object'' v])"

subsection \<open>BigIntSchema\<close>

text \<open>
  \<^verbatim>\<open>BigInt(val)\<close> on a string is StringToBigInt of ECMAScript: the string is trimmed of
  white space; the empty string is \<^verbatim>\<open>0n\<close>; otherwise it must be decimal digits with an
  optional sign, or \<^verbatim>\<open>0x\<close>, \<^verbatim>\<open>0o\<close>, \<^verbatim>\<open>0b\<close> followed by digits of that radix (no
  sign); anything else is a SyntaxError (\<open>None\<close>).
\<close>

definition parse_digits :: "nat \<Rightarrow> string \<Rightarrow> int option" where
  "parse_digits radix ds =
     (if ds \<noteq> [] \<and> list_all (\<lambda>c. digit_value radix c \<noteq> None) ds
      then Some (int (digits_value radix ds)) else None)"

definition StringToBigInt :: "string \<Rightarrow> int option" where
  "StringToBigInt str =
     (let s = trim str in
      if s = [] then Some 0
      else if startsWith s ''0x'' \<or> startsWith s ''0X'' then parse_digits 16 (drop 2 s)
      else if startsWith s ''0o'' \<or> startsWith s ''0O'' then parse_digits 8 (drop 2 s)
      else if startsWith s ''0b'' \<or> startsWith s ''0B'' then parse_digits 2 (drop 2 s)
      else if startsWith s ''-'' then map_option uminus (parse_digits 10 (drop 1 s))
      else if startsWith s ''+'' then parse_digits 10 (drop 1 s)
      else parse_digits 10 s)"

text \<open>
  \<^verbatim>\<open>z.string().transform((val, ctx) => { try { return BigInt(val) } catch { ctx.addIssue(...); return z.NEVER } })\<close>
\<close>

definition BigIntSchema :: schema where
  "BigIntSchema v =
     (case v of
        VStr val \<Rightarrow>
          (case StringToBigInt val of
             Some i \<Rightarrow> Inr (VBigInt i)
           | None \<Rightarrow> Inl [([], ''Invalid BigInt value: '' @ [CHR 0x22] @ val @ [CHR 0x22])])
      | _ \<Rightarrow> Inl [invalid_type ''string'' v])"

text \<open>What a string of decimal digits denotes, by positions: the sum of digit times power of ten.\<close>

definition is_decimal_digit :: "char \<Rightarrow> bool" where
  "is_decimal_digit c = (c \<in> set ''0123456789'')"

definition decimal_digit :: "char \<Rightarrow> nat" where
  "decimal_digit c = of_char c - 48"

definition decimal_value :: "string \<Rightarrow> int" where
  "decimal_value s = (\<Sum>i < length s. int (decimal_digit (s ! i)) * 10 ^ (length s - 1 - i))"

subsection \<open>NumberStringSchema\<close>

text \<open>
  \<^verbatim>\<open>Number(val)\<close> on a string is StringToNumber of ECMAScript: the string is trimmed; the
  empty string is 0; \<^verbatim>\<open>Infinity\<close> with an optional sign; \<^verbatim>\<open>0x\<close>, \<^verbatim>\<open>0o\<close>, \<^verbatim>\<open>0b\<close>
  literals; or a decimal literal with an optional sign, an optional fraction and an
  optional exponent; anything else is \<^verbatim>\<open>NaN\<close>. The value of a literal is a rational;
  which double it rounds to is left to \<open>round_double\<close>, a parameter.
\<close>

definition all_decimal :: "string \<Rightarrow> bool" where
  "all_decimal ds = list_all (\<lambda>c. digit_value 10 c \<noteq> None) ds"

definition pow10 :: "int \<Rightarrow> rat" where
  "pow10 k = (if 0 \<le> k then 10 ^ nat k else 1 / 10 ^ nat (- k))"

definition parse_exponent :: "string \<Rightarrow> int option" where
  "parse_exponent ex =
     (if startsWith ex ''-'' then map_option uminus (parse_digits 10 (drop 1 ex))
      else if startsWith ex ''+'' then parse_digits 10 (drop 1 ex)
      else parse_digits 10 ex)"

definition parse_StrDecimalLiteral :: "string \<Rightarrow> rat option" where
  "parse_StrDecimalLiteral s =
     (let mantissa = takeWhile (\<lambda>c. c \<noteq> CHR ''e'' \<and> c \<noteq> CHR ''E'') s;
          exponent = dropWhile (\<lambda>c. c \<noteq> CHR ''e'' \<and> c \<noteq> CHR ''E'') s;
          ip = takeWhile (\<lambda>c. c \<noteq> CHR ''.'') mantissa;
          fp = drop 1 (dropWhile (\<lambda>c. c \<noteq> CHR ''.'') mantissa)
      in if \<not> all_decimal ip \<or> \<not> all_decimal fp \<or> (ip = [] \<and> fp = []) then None
         else
           let m = of_nat (digits_value 10 (ip @ fp)) / 10 ^ length fp
           in if exponent = [] then Some m
              else (case parse_exponent (drop 1 exponent) of
                      None \<Rightarrow> None
                    | Some k \<Rightarrow> Some (m * pow10 k)))"

definition StringToNumber :: "(rat \<Rightarrow> jsnum) \<Rightarrow> string \<Rightarrow> jsnum" where
  "StringToNumber round_double str =
     (let s = trim str in
      if s = [] then Fin 0
      else if s = ''Infinity'' \<or> s = ''+Infinity'' then PosInf
      else if s = ''-Infinity'' then NegInf
      else if startsWith s ''0x'' \<or> startsWith s ''0X''
      then (case parse_digits 16 (drop 2 s) of None \<Rightarrow> NaN | Some n \<Rightarrow> round_double (of_int n))
      else if startsWith s ''0o'' \<or> startsWith s ''0O''
      then (case parse_digits 8 (drop 2 s) of None \<Rightarrow> NaN | Some n \<Rightarrow> round_double (of_int n))
      else if startsWith s ''0b'' \<or> startsWith s ''0B''
      then (case parse_digits 2 (drop 2 s) of None \<Rightarrow> NaN | Some n \<Rightarrow> round_double (of_int n))
      else if startsWith s ''-''
      then (case parse_StrDecimalLiteral (drop 1 s) of None \<Rightarrow> NaN | Some q \<Rightarrow> round_double (- q))
      else if startsWith s ''+''
      then (case parse_StrDecimalLiteral (drop 1 s) of None \<Rightarrow> NaN | Some q \<Rightarrow> round_double q)
      else (case parse_StrDecimalLiteral s of None \<Rightarrow> NaN | Some q \<Rightarrow> round_double q))"

text \<open>
  \<^verbatim>\<open>z.string().transform(val => { const num = Number(val); return isNaN(num) ? 0 : num; })\<close>
\<close>

definition NumberStringSchema :: "(rat \<Rightarrow> jsnum) \<Rightarrow> schema" where
  "NumberStringSchema round_double v =
     (case v of
        VStr val \<Rightarrow>
          (let num = StringToNumber round_double val
           in Inr (VNum (if num = NaN then Fin 0 else num)))
      | _ \<Rightarrow> Inl [invalid_type ''string'' v])"

text \<open>
  \<^verbatim>\<open>BlockCountdownSchema\<close>, one of the schemas with a count-style field.
\<close>

definition BlockCountdownSchema :: "(rat \<Rightarrow> jsnum) \<Rightarrow> schema" where
  "BlockCountdownSchema round_double =
     z_object [(''CurrentBlock'', z_string), (''CountdownBlock'', z_string),
               (''RemainingBlock'', NumberStringSchema round_double),
               (''EstimateTimeInSec'', z_string)]"


section \<open>Validators and the account balance method\<close>

text \<open>
  \<^verbatim>\<open>AddressSchema\<close> is \<^verbatim>\<open>z.string().regex(/^0x[a-fA-F0-9]{40}$/)\<close>: on a string, whether
  the pattern matches.
\<close>

definition AddressSchema_matches :: "string \<Rightarrow> bool" where
  "AddressSchema_matches s =
     (startsWith s ''0x'' \<and> length s = 42 \<and> list_all (\<lambda>c. digit_value 16 c \<noteq> None) (drop 2 s))"

text \<open>
  The validators (class Validators, lines 435 to 610 of src/core/transport.ts) return nothing or throw: \<open>None\<close> or the error.
  An argument that may be \<^verbatim>\<open>undefined\<close> is an option.
\<close>

definition MAX_STRING_LENGTH :: nat where
  "MAX_STRING_LENGTH = 10000"

definition MAX_ADDRESSES :: nat where
  "MAX_ADDRESSES = 20"

definition Validators_addressSchema :: "string option \<Rightarrow> string \<Rightarrow> error option" where
  "Validators_addressSchema value fieldName =
     (case value of
        None \<Rightarrow> None
      | Some v \<Rightarrow>
          (if v = [] then None
           else if length v > MAX_STRING_LENGTH
           then Some (ValidationError (fieldName @ '' exceeds maximum length of 10000''))
           else if \<not> AddressSchema_matches v
           then Some (ValidationError (''Invalid '' @ fieldName @ '': '' @ v))
           else None))"

definition Validators_address :: "string option \<Rightarrow> string \<Rightarrow> error option" where
  "Validators_address value fieldName = Validators_addressSchema value fieldName"

text \<open>\<^verbatim>\<open>forEach\<close> with a callback that may throw: the first error ends the loop.\<close>

fun first_error :: "error option list \<Rightarrow> error option" where
  "first_error [] = None"
| "first_error (None # rest) = first_error rest"
| "first_error (Some e # rest) = Some e"

definition Validators_addressList :: "string option \<Rightarrow> string \<Rightarrow> error option" where
  "Validators_addressList value fieldName =
     (case value of
        None \<Rightarrow> None
      | Some v \<Rightarrow>
          (if v = [] then None
           else if length v > MAX_STRING_LENGTH
           then Some (ValidationError (fieldName @ '' exceeds maximum length''))
           else
             let addresses = map trim (split_on CHR '','' v)
             in if length addresses > MAX_ADDRESSES
                then Some (ValidationError (''Too many addresses in '' @ fieldName @ '' (max: 20)''))
                else first_error (map (\<lambda>addr. Validators_address (Some addr) fieldName) addresses)))"

text \<open>
  The record built from the \<^verbatim>\<open>balancemulti\<close> response: \<^verbatim>\<open>result\<close> starts as \<^verbatim>\<open>{}\<close>,
  and \<^verbatim>\<open>result[item.account] = item.balance\<close> is an assignment to a property of an
  ordinary object.

  The own properties of an object are kept in the order in which JavaScript enumerates
  them: first the keys that are array indices (the decimal numerals without a leading
  zero, below \<open>2\<^sup>3\<^sup>2 - 1\<close>), in ascending numeric order, then the other keys in the order
  of their creation. Assigning to an existing key keeps its place.
\<close>

definition index_value :: "string \<Rightarrow> int" where
  "index_value k = foldl (\<lambda>acc c. acc * 10 + int (decimal_digit c)) 0 k"

definition is_array_index :: "string \<Rightarrow> bool" where
  "is_array_index k =
     (k \<noteq> [] \<and> list_all is_decimal_digit k \<and> (k = ''0'' \<or> hd k \<noteq> CHR ''0'') \<and>
      index_value k < 4294967295)"

fun insert_index :: "string \<Rightarrow> jsval \<Rightarrow> (string \<times> jsval) list \<Rightarrow> (string \<times> jsval) list" where
  "insert_index key v [] = [(key, v)]"
| "insert_index key v ((k, x) # rest) =
     (if is_array_index k \<and> index_value k < index_value key
      then (k, x) # insert_index key v rest
      else (key, v) # (k, x) # rest)"

definition define_own ::
  "string \<Rightarrow> jsval \<Rightarrow> (string \<times> jsval) list \<Rightarrow> (string \<times> jsval) list" where
  "define_own key v props =
     (if is_array_index key \<and> map_of props key = None then insert_index key v props
      else AList.update key v props)"

text \<open>
  The key \<^verbatim>\<open>__proto__\<close> is special: \<^verbatim>\<open>{}\<close> inherits from \<^verbatim>\<open>Object.prototype\<close> the
  accessor of that name, and the assignment calls its setter instead of creating a
  property. The setter replaces the prototype of \<^verbatim>\<open>result\<close> when the value is an object
  or \<^verbatim>\<open>null\<close> and does nothing otherwise (so for a balance, which is a bigint). The
  setter is no longer inherited once the prototype is \<^verbatim>\<open>null\<close>, or a parsed object
  that has an own property \<^verbatim>\<open>__proto__\<close> (\<^verbatim>\<open>JSON.parse\<close> creates one for that key);
  the assignment then creates an own property, as for any other key. Every other
  property that \<^verbatim>\<open>result\<close> can inherit is a writable data property, which an assignment
  shadows by an own property.
\<close>

datatype prototype = Object_prototype | Null_prototype | Parsed jsval

definition inherits_proto_setter :: "prototype \<Rightarrow> bool" where
  "inherits_proto_setter pr =
     (case pr of
        Object_prototype \<Rightarrow> True
      | Null_prototype \<Rightarrow> False
      | Parsed (VObj ps) \<Rightarrow> map_of ps ''__proto__'' = None
      | Parsed _ \<Rightarrow> True)"

definition Object_set ::
  "prototype \<times> (string \<times> jsval) list \<Rightarrow> string \<Rightarrow> jsval \<Rightarrow> prototype \<times> (string \<times> jsval) list" where
  "Object_set obj key v =
     (case obj of
        (pr, props) \<Rightarrow>
          if key = ''__proto__'' \<and> map_of props key = None \<and> inherits_proto_setter pr
          then (case v of
                  VNull \<Rightarrow> (Null_prototype, props)
                | VObj _ \<Rightarrow> (Parsed v, props)
                | VArr _ \<Rightarrow> (Parsed v, props)
                | _ \<Rightarrow> obj)
          else (pr, define_own key v props))"

text \<open>
  \<^verbatim>\<open>response.forEach(item => { result[item.account] = item.balance })\<close>: the items in
  order; reading \<^verbatim>\<open>item.account\<close> throws on the first item that is \<^verbatim>\<open>null\<close> or
  \<^verbatim>\<open>undefined\<close>. The value returned is \<^verbatim>\<open>result\<close>, by its own properties.
\<close>

definition balances_record :: "runtime \<Rightarrow> jsval \<Rightarrow> error + jsval" where
  "balances_record rt response =
     (case response of
        VArr items \<Rightarrow>
          (case find nullish items of
             Some item \<Rightarrow>
               Inl (JsError ''TypeError''
                      (cannot_read_properties (if item = VNull then ''null'' else ''undefined'')
                         ''account''))
           | None \<Rightarrow>
               Inr (VObj (snd (foldl (\<lambda>result item.
                      Object_set result (ToString rt (get_prop item ''account''))
                        (get_prop item ''balance''))
                    (Object_prototype, []) items))))
      | _ \<Rightarrow> Inl (JsError ''TypeError'' (no_such_method ''response'' response ''forEach'')))"

text \<open>
  \<^verbatim>\<open>Account.getBalance\<close> (src/resources/account.ts). Both overloads come down to an
  address string and an optional tag. The transport is the object the module was
  constructed with: \<open>tget\<close> is its \<^verbatim>\<open>get\<close> method, which takes the parameters and the
  schema and acts on the world \<open>w\<close> (the transport's state and the network). The method
  returns or throws, and leaves a world.
\<close>

definition getBalance ::
  "runtime \<Rightarrow> (params \<Rightarrow> schema \<Rightarrow> 'w \<Rightarrow> (error + jsval) \<times> 'w) \<Rightarrow> string \<Rightarrow> string option \<Rightarrow> 'w \<Rightarrow>
   (error + jsval) \<times> 'w" where
  "getBalance rt tget address tag w =
     (let addresses = filter (\<lambda>addr. length addr > 0) (map trim (split_on CHR '','' address))
      in if length addresses = 1
         then (case Validators_addressSchema (Some (addresses ! 0)) ''address'' of
                 Some e \<Rightarrow> (Inl e, w)
               | None \<Rightarrow>
                   tget [(''module'', VStr ''account''), (''action'', VStr ''balance''),
                         (''address'', VStr (addresses ! 0)),
                         (''tag'', case tag of None \<Rightarrow> VUndefined | Some tg \<Rightarrow> VStr tg)]
                     BigIntSchema w)
         else if length addresses > 1
         then
           (if length addresses > 20
            then (Inl (JsError ''Error'' ''Cannot query more than 20 addresses at once''), w)
            else
              (case first_error
                      (map (\<lambda>(index, addr).
                              Validators_addressSchema (Some addr)
                                (''address['' @ nat_toString index @ '']''))
                         (zip [0 ..< length addresses] addresses)) of
                 Some e \<Rightarrow> (Inl e, w)
               | None \<Rightarrow>
                   (case tget [(''module'', VStr ''account''), (''action'', VStr ''balancemulti''),
                               (''address'', VStr (join '','' addresses)),
                               (''tag'', VStr (case tag of None \<Rightarrow> ''latest''
                                               | Some tg \<Rightarrow> if tg = [] then ''latest'' else tg))]
                           (z_array (z_object [(''account'', z_string), (''balance'', BigIntSchema)]))
                           w of
                      (Inl e, w1) \<Rightarrow> (Inl e, w1)
                    | (Inr response, w1) \<Rightarrow> (balances_record rt response, w1))))
         else (Inl (JsError ''Error'' ''At least one address is required''), w))"

text \<open>
  The world of the transport model above: the transport and the network events so far;
  \<^verbatim>\<open>this.transport.get\<close> is \<open>transport_get\<close> on it.
\<close>

definition world_get ::
  "runtime \<Rightarrow> int \<Rightarrow> int \<Rightarrow> (nat \<Rightarrow> thrown + Response) \<Rightarrow> params \<Rightarrow> schema \<Rightarrow>
   Transport \<times> net_event list \<Rightarrow> (error + jsval) \<times> Transport \<times> net_event list" where
  "world_get rt now later fetch ps schema w =
     (case transport_get rt (fst w) now later fetch ps schema None of
        (r, t1, evs) \<Rightarrow> (r, t1, snd w @ evs))"

definition address_list :: "nat \<Rightarrow> string" where
  "address_list n = join '','' (replicate n ''0xd8dA6BF26964aF9D7eEd9e03E53415D37aA96045'')"



section \<open>Theorems: the rate limiter registry\<close>


lemma reg_okD:
  assumes "reg_ok hashKey ls h" and "map_of ls k = Some (r, n)"
  shows "1 \<le> n" and "r < length h" and "stop_calls (h ! r) = []"
    and "k \<in> range hashKey" and "map_of ls k' = Some (r, n') \<Longrightarrow> k' = k"
  using assms unfolding reg_ok_def by blast+

lemma reg_ok_fresh:
  assumes ok: "reg_ok hashKey ls h" and none: "map_of ls kh = None"
    and kh: "kh \<in> range hashKey" and x: "stop_calls x = []"
  shows "reg_ok hashKey (AList.update kh (length h, 1) ls) (h @ [x])"
  unfolding reg_ok_def
proof (intro conjI allI impI)
  show "distinct (map fst (AList.update kh (length h, 1) ls))"
    using ok by (simp add: reg_ok_def distinct_update)
next
  fix k r n
  assume a: "map_of (AList.update kh (length h, 1) ls) k = Some (r, n)"
  show "1 \<le> n" "r < length (h @ [x])" "stop_calls ((h @ [x]) ! r) = []" "k \<in> range hashKey"
    using a reg_okD(1-4) [OF ok, of k r n] kh x
    by (auto simp: update_conv' nth_append split: if_splits)
next
  fix k k' r n n'
  assume a: "map_of (AList.update kh (length h, 1) ls) k = Some (r, n)"
    and b: "map_of (AList.update kh (length h, 1) ls) k' = Some (r, n')"
  show "k' = k"
    using a b reg_okD(2) [OF ok, of k r n] reg_okD(2) [OF ok, of k' r n']
      reg_okD(5) [OF ok, of k r n k' n']
    by (auto simp: update_conv' split: if_splits)
qed

lemma reg_ok_count:
  assumes ok: "reg_ok hashKey ls h" and some: "map_of ls kh = Some (r0, n0)" and n1: "1 \<le> n1"
  shows "reg_ok hashKey (AList.update kh (r0, n1) ls) h"
  unfolding reg_ok_def
proof (intro conjI allI impI)
  show "distinct (map fst (AList.update kh (r0, n1) ls))"
    using ok by (simp add: reg_ok_def distinct_update)
next
  fix k r n
  assume a: "map_of (AList.update kh (r0, n1) ls) k = Some (r, n)"
  show "1 \<le> n" "r < length h" "stop_calls (h ! r) = []" "k \<in> range hashKey"
    using a reg_okD(1-4) [OF ok, of k r n] reg_okD(1-4) [OF ok some] n1
    by (auto simp: update_conv' split: if_splits)
next
  fix k k' r n n'
  assume a: "map_of (AList.update kh (r0, n1) ls) k = Some (r, n)"
    and b: "map_of (AList.update kh (r0, n1) ls) k' = Some (r, n')"
  show "k' = k"
    using a b reg_okD(5) [OF ok some, of k'] reg_okD(5) [OF ok some, of k]
      reg_okD(5) [OF ok, of k r n k' n'] reg_okD(5) [OF ok, of k' r n' kh n0]
      reg_okD(5) [OF ok, of k r n kh n0]
    by (auto simp: update_conv' split: if_splits)
qed

lemma reg_ok_delete:
  assumes ok: "reg_ok hashKey ls h" and some: "map_of ls kh = Some (r0, n0)"
  shows "reg_ok hashKey (AList.delete kh ls) (h[r0 := y])"
  unfolding reg_ok_def
proof (intro conjI allI impI)
  show "distinct (map fst (AList.delete kh ls))"
    using ok by (simp add: reg_ok_def distinct_delete)
next
  fix k r n
  assume a: "map_of (AList.delete kh ls) k = Some (r, n)"
  then have k: "k \<noteq> kh" and m: "map_of ls k = Some (r, n)"
    by (auto simp: delete_conv' split: if_splits)
  have "r \<noteq> r0" using reg_okD(5) [OF ok m, of kh n0] some k by auto
  then show "1 \<le> n" "r < length (h[r0 := y])" "stop_calls (h[r0 := y] ! r) = []" "k \<in> range hashKey"
    using reg_okD(1-4) [OF ok m] by auto
next
  fix k k' r n n'
  assume a: "map_of (AList.delete kh ls) k = Some (r, n)"
    and b: "map_of (AList.delete kh ls) k' = Some (r, n')"
  show "k' = k"
    using a b reg_okD(5) [OF ok, of k r n k' n']
    by (auto simp: delete_conv' split: if_splits)
qed

lemma inv_empty: "registry_inv hashKey empty_registry"
  by (simp add: registry_inv_def reg_ok_def empty_registry_def)

lemma inv_get:
  assumes inv: "registry_inv hashKey reg"
  shows "registry_inv hashKey (snd (getLimiter hashKey fdiv reg apiKey q rsv iv))"
proof (cases "map_of (limiters reg) (hashKey apiKey)")
  case None
  then show ?thesis
    using reg_ok_fresh [OF inv [unfolded registry_inv_def] None, of "new_Bottleneck fdiv q rsv iv"]
    by (simp add: getLimiter_def Let_def registry_inv_def new_Bottleneck_def)
next
  case (Some a)
  obtain r0 n0 where a: "a = (r0, n0)" by (cases a)
  note S = Some [unfolded a]
  have "1 \<le> n0 + 1" using reg_okD(1) [OF inv [unfolded registry_inv_def] S] by simp
  then show ?thesis
    using reg_ok_count [OF inv [unfolded registry_inv_def] S, of "n0 + 1"] S
    by (simp add: getLimiter_def Let_def registry_inv_def)
qed

lemma inv_cleanup:
  assumes inv: "registry_inv hashKey reg"
  shows "registry_inv hashKey (cleanup hashKey reg apiKey)"
proof (cases "map_of (limiters reg) (hashKey apiKey)")
  case None
  with inv show ?thesis by (simp add: cleanup_def)
next
  case (Some a)
  obtain r0 n0 where a: "a = (r0, n0)" by (cases a)
  note S = Some [unfolded a]
  note ok = inv [unfolded registry_inv_def]
  show ?thesis
  proof (cases "n0 - 1 \<le> 0")
    case True
    then show ?thesis
      using reg_ok_delete [OF ok S] S reg_okD(2) [OF ok S]
      by (simp add: cleanup_def Let_def registry_inv_def stop_limiter_def)
  next
    case False
    then show ?thesis
      using reg_ok_count [OF ok S, of "n0 - 1"] S
      by (simp add: cleanup_def Let_def registry_inv_def)
  qed
qed

lemma reachable_inv: "reachable_registry hashKey reg \<Longrightarrow> registry_inv hashKey reg"
  by (induction rule: reachable_registry.induct) (simp_all add: inv_empty inv_get inv_cleanup)

text \<open>
  Claim C8. In every registry the program can reach, the entries are keyed by
  \<open>hashKey apiKey\<close> (the hash of the credential, never the credential itself), every
  entry has a count of at least 1 and a limiter that has never been stopped, and no two
  entries share a limiter. An acquisition for a credential whose hash has an entry
  returns that entry's limiter (no new limiter is created) and adds one to its count; the
  first acquisition creates the limiter with count 1; the limiter returned by an
  acquisition is returned again by the next one. A release subtracts one from the count
  and leaves the limiter running while the count stays positive; when the count was 1
  the entry is removed and the limiter is stopped with \<^verbatim>\<open>dropWaitingJobs: false\<close>.
  Neither operation touches another key: the entries of the other keys keep their limiter
  and their count, an acquisition leaves every existing limiter object as it is, and a
  release changes no limiter object but the one of its own key.
\<close>

theorem limiter_registry_shared_refcounted:
  assumes reach: "reachable_registry hashKey reg"
  shows "registry_keys reg \<subseteq> range hashKey \<and>
    (\<forall>k l. limiter_of reg k = Some l \<longrightarrow>
        l < length (limiter_heap reg) \<and> stop_calls (limiter_heap reg ! l) = [] \<and>
        (\<exists>n. refCount_of reg k = Some n \<and> 1 \<le> n) \<and>
        (\<forall>k'. limiter_of reg k' = Some l \<longrightarrow> k' = k)) \<and>
    limiter_of (snd (getLimiter hashKey fdiv reg apiKey q rsv iv)) (hashKey apiKey) =
      Some (fst (getLimiter hashKey fdiv reg apiKey q rsv iv)) \<and>
    refCount_of (snd (getLimiter hashKey fdiv reg apiKey q rsv iv)) (hashKey apiKey) =
      Some (case refCount_of reg (hashKey apiKey) of None \<Rightarrow> 1 | Some n \<Rightarrow> n + 1) \<and>
    registry_keys (snd (getLimiter hashKey fdiv reg apiKey q rsv iv)) =
      insert (hashKey apiKey) (registry_keys reg) \<and>
    (\<forall>l. limiter_of reg (hashKey apiKey) = Some l \<longrightarrow>
        fst (getLimiter hashKey fdiv reg apiKey q rsv iv) = l \<and>
        limiter_heap (snd (getLimiter hashKey fdiv reg apiKey q rsv iv)) = limiter_heap reg) \<and>
    (limiter_of reg (hashKey apiKey) = None \<longrightarrow>
        fst (getLimiter hashKey fdiv reg apiKey q rsv iv) = length (limiter_heap reg) \<and>
        limiter_heap (snd (getLimiter hashKey fdiv reg apiKey q rsv iv)) =
          limiter_heap reg @ [new_Bottleneck fdiv q rsv iv]) \<and>
    fst (getLimiter hashKey fdiv (snd (getLimiter hashKey fdiv reg apiKey q rsv iv)) apiKey q' rsv' iv') =
      fst (getLimiter hashKey fdiv reg apiKey q rsv iv) \<and>
    (\<forall>k. k \<noteq> hashKey apiKey \<longrightarrow>
        limiter_of (snd (getLimiter hashKey fdiv reg apiKey q rsv iv)) k = limiter_of reg k \<and>
        refCount_of (snd (getLimiter hashKey fdiv reg apiKey q rsv iv)) k = refCount_of reg k) \<and>
    (\<forall>l. l < length (limiter_heap reg) \<longrightarrow>
        limiter_heap (snd (getLimiter hashKey fdiv reg apiKey q rsv iv)) ! l = limiter_heap reg ! l) \<and>
    (refCount_of reg (hashKey apiKey) = None \<longrightarrow> cleanup hashKey reg apiKey = reg) \<and>
    (\<forall>n. refCount_of reg (hashKey apiKey) = Some n \<and> 1 < n \<longrightarrow>
        refCount_of (cleanup hashKey reg apiKey) (hashKey apiKey) = Some (n - 1) \<and>
        limiter_of (cleanup hashKey reg apiKey) (hashKey apiKey) = limiter_of reg (hashKey apiKey) \<and>
        limiter_heap (cleanup hashKey reg apiKey) = limiter_heap reg) \<and>
    (\<forall>l. refCount_of reg (hashKey apiKey) = Some 1 \<and> limiter_of reg (hashKey apiKey) = Some l \<longrightarrow>
        hashKey apiKey \<notin> registry_keys (cleanup hashKey reg apiKey) \<and>
        stop_calls (limiter_heap (cleanup hashKey reg apiKey) ! l) = [False] \<and>
        options (limiter_heap (cleanup hashKey reg apiKey) ! l) = options (limiter_heap reg ! l)) \<and>
    (\<forall>k. k \<noteq> hashKey apiKey \<longrightarrow>
        limiter_of (cleanup hashKey reg apiKey) k = limiter_of reg k \<and>
        refCount_of (cleanup hashKey reg apiKey) k = refCount_of reg k) \<and>
    length (limiter_heap (cleanup hashKey reg apiKey)) = length (limiter_heap reg) \<and>
    (\<forall>l. limiter_of reg (hashKey apiKey) \<noteq> Some l \<longrightarrow>
        limiter_heap (cleanup hashKey reg apiKey) ! l = limiter_heap reg ! l)"
proof -
  note ok = reachable_inv [OF reach, unfolded registry_inv_def]
  let ?kh = "hashKey apiKey"
  let ?G = "getLimiter hashKey fdiv reg apiKey q rsv iv"
  let ?C = "cleanup hashKey reg apiKey"
  have keys: "registry_keys reg \<subseteq> range hashKey"
  proof
    fix k assume "k \<in> registry_keys reg"
    then obtain v where "map_of (limiters reg) k = Some v"
      using ok by (auto simp: registry_keys_def reg_ok_def)
    then show "k \<in> range hashKey" using reg_okD(4) [OF ok, of k "fst v" "snd v"] by simp
  qed
  have live: "\<forall>k l. limiter_of reg k = Some l \<longrightarrow>
        l < length (limiter_heap reg) \<and> stop_calls (limiter_heap reg ! l) = [] \<and>
        (\<exists>n. refCount_of reg k = Some n \<and> 1 \<le> n) \<and>
        (\<forall>k'. limiter_of reg k' = Some l \<longrightarrow> k' = k)"
  proof (intro allI impI)
    fix k l assume "limiter_of reg k = Some l"
    then obtain n where m: "map_of (limiters reg) k = Some (l, n)"
      by (auto simp: limiter_of_def)
    have one: "\<forall>k'. limiter_of reg k' = Some l \<longrightarrow> k' = k"
    proof (intro allI impI)
      fix k' assume "limiter_of reg k' = Some l"
      then obtain n' where "map_of (limiters reg) k' = Some (l, n')"
        by (auto simp: limiter_of_def)
      then show "k' = k" by (rule reg_okD(5) [OF ok m])
    qed
    show "l < length (limiter_heap reg) \<and> stop_calls (limiter_heap reg ! l) = [] \<and>
        (\<exists>n. refCount_of reg k = Some n \<and> 1 \<le> n) \<and>
        (\<forall>k'. limiter_of reg k' = Some l \<longrightarrow> k' = k)"
      using reg_okD(1-3) [OF ok m] m one by (simp add: refCount_of_def)
  qed
  have get: "limiter_of (snd ?G) ?kh = Some (fst ?G)"
    "refCount_of (snd ?G) ?kh =
      Some (case refCount_of reg ?kh of None \<Rightarrow> 1 | Some n \<Rightarrow> n + 1)"
    "registry_keys (snd ?G) = insert ?kh (registry_keys reg)"
    "\<forall>l. limiter_of reg ?kh = Some l \<longrightarrow>
        fst ?G = l \<and> limiter_heap (snd ?G) = limiter_heap reg"
    "limiter_of reg ?kh = None \<longrightarrow>
        fst ?G = length (limiter_heap reg) \<and>
        limiter_heap (snd ?G) = limiter_heap reg @ [new_Bottleneck fdiv q rsv iv]"
    "fst (getLimiter hashKey fdiv (snd ?G) apiKey q' rsv' iv') = fst ?G"
    by (auto simp: getLimiter_def Let_def limiter_of_def refCount_of_def update_conv'
        registry_keys_def dom_map_of_conv_image_fst [symmetric] split: option.splits)
  have get_frame: "\<forall>k. k \<noteq> ?kh \<longrightarrow>
        limiter_of (snd ?G) k = limiter_of reg k \<and> refCount_of (snd ?G) k = refCount_of reg k"
    "\<forall>l. l < length (limiter_heap reg) \<longrightarrow> limiter_heap (snd ?G) ! l = limiter_heap reg ! l"
    by (auto simp: getLimiter_def Let_def limiter_of_def refCount_of_def update_conv' nth_append
        split: option.splits)
  have cl: "refCount_of reg ?kh = None \<longrightarrow> ?C = reg"
    "\<forall>n. refCount_of reg ?kh = Some n \<and> 1 < n \<longrightarrow>
        refCount_of ?C ?kh = Some (n - 1) \<and> limiter_of ?C ?kh = limiter_of reg ?kh \<and>
        limiter_heap ?C = limiter_heap reg"
    by (auto simp: cleanup_def Let_def limiter_of_def refCount_of_def update_conv' split: option.splits)
  have stop: "\<forall>l. refCount_of reg ?kh = Some 1 \<and> limiter_of reg ?kh = Some l \<longrightarrow>
        ?kh \<notin> registry_keys ?C \<and> stop_calls (limiter_heap ?C ! l) = [False] \<and>
        options (limiter_heap ?C ! l) = options (limiter_heap reg ! l)"
  proof (intro allI impI)
    fix l assume a: "refCount_of reg ?kh = Some 1 \<and> limiter_of reg ?kh = Some l"
    then have m: "map_of (limiters reg) ?kh = Some (l, 1)"
      by (auto simp: limiter_of_def refCount_of_def)
    show "?kh \<notin> registry_keys ?C \<and> stop_calls (limiter_heap ?C ! l) = [False] \<and>
        options (limiter_heap ?C ! l) = options (limiter_heap reg ! l)"
      using m reg_okD(2,3) [OF ok m]
      by (simp add: cleanup_def Let_def registry_keys_def stop_limiter_def
          dom_map_of_conv_image_fst [symmetric] delete_conv')
  qed
  have cl_frame: "\<forall>k. k \<noteq> ?kh \<longrightarrow>
        limiter_of ?C k = limiter_of reg k \<and> refCount_of ?C k = refCount_of reg k"
    "length (limiter_heap ?C) = length (limiter_heap reg)"
    "\<forall>l. limiter_of reg ?kh \<noteq> Some l \<longrightarrow> limiter_heap ?C ! l = limiter_heap reg ! l"
    by (auto simp: cleanup_def Let_def limiter_of_def refCount_of_def update_conv' delete_conv'
        stop_limiter_def split: option.splits)
  from keys live get get_frame cl stop cl_frame show ?thesis by blast
qed

theorem limiter_registry_shared_refcounted_witness:
  "reachable_registry rev
     (snd (getLimiter rev (\<lambda>a b. Fin (a / b))
        (snd (getLimiter rev (\<lambda>a b. Fin (a / b)) empty_registry ''key'' 3 100000 86400000))
        ''other'' 3 100000 86400000)) \<and>
   fst (getLimiter rev (\<lambda>a b. Fin (a / b))
     (snd (getLimiter rev (\<lambda>a b. Fin (a / b))
        (snd (getLimiter rev (\<lambda>a b. Fin (a / b)) empty_registry ''key'' 3 100000 86400000))
        ''other'' 3 100000 86400000)) ''key'' 5 7 9) = 0 \<and>
   refCount_of (snd (getLimiter rev (\<lambda>a b. Fin (a / b))
     (snd (getLimiter rev (\<lambda>a b. Fin (a / b))
        (snd (getLimiter rev (\<lambda>a b. Fin (a / b)) empty_registry ''key'' 3 100000 86400000))
        ''other'' 3 100000 86400000)) ''key'' 5 7 9)) ''yek'' = Some 2 \<and>
   registry_keys (cleanup rev
     (snd (getLimiter rev (\<lambda>a b. Fin (a / b))
        (snd (getLimiter rev (\<lambda>a b. Fin (a / b)) empty_registry ''key'' 3 100000 86400000))
        ''other'' 3 100000 86400000)) ''key'') = {''rehto''} \<and>
   limiter_of (cleanup rev
     (snd (getLimiter rev (\<lambda>a b. Fin (a / b))
        (snd (getLimiter rev (\<lambda>a b. Fin (a / b)) empty_registry ''key'' 3 100000 86400000))
        ''other'' 3 100000 86400000)) ''key'') ''rehto'' = Some 1 \<and>
   refCount_of (cleanup rev
     (snd (getLimiter rev (\<lambda>a b. Fin (a / b))
        (snd (getLimiter rev (\<lambda>a b. Fin (a / b)) empty_registry ''key'' 3 100000 86400000))
        ''other'' 3 100000 86400000)) ''key'') ''rehto'' = Some 1 \<and>
   map stop_calls (limiter_heap (cleanup rev
     (snd (getLimiter rev (\<lambda>a b. Fin (a / b))
        (snd (getLimiter rev (\<lambda>a b. Fin (a / b)) empty_registry ''key'' 3 100000 86400000))
        ''other'' 3 100000 86400000)) ''key'')) = [[False], []]"
proof -
  let ?fd = "\<lambda>a b :: rat. Fin (a / b)"
  let ?reg = "snd (getLimiter rev ?fd
        (snd (getLimiter rev ?fd empty_registry ''key'' 3 100000 86400000))
        ''other'' 3 100000 86400000)"
  have r: "reachable_registry rev ?reg"
    by (rule reach_get [OF reach_get [OF reach_empty]])
  have s: "stop_calls (new_Bottleneck f q rs i) = []" for f q rs i
    by (simp add: new_Bottleneck_def)
  have R: "?reg = \<lparr>limiters = [(''yek'', (0, 1)), (''rehto'', (1, 1))],
      limiter_heap = [new_Bottleneck ?fd 3 100000 86400000, new_Bottleneck ?fd 3 100000 86400000]\<rparr>"
    by (simp add: getLimiter_def empty_registry_def Let_def)
  note T = limiter_registry_shared_refcounted [OF r, of ?fd "''key''" 5 7 9 5 7 9]
  from T have keys: "registry_keys ?reg \<subseteq> range rev" by (rule conjunct1)
  show ?thesis
    using r keys unfolding R
    by (simp add: getLimiter_def Let_def refCount_of_def limiter_of_def registry_keys_def
        cleanup_def stop_limiter_def s)
qed

section \<open>Theorems: request deduplication\<close>
























section \<open>Theorems: the validated-result cache\<close>

text \<open>
  Where eviction works (no empty key, every configured capacity at least 1) the cache
  keeps its bound: these lemmas show it for every run of operations, that \<^verbatim>\<open>set\<close> at
  capacity evicts the head of the access order, and that \<^verbatim>\<open>updateConfig\<close> returns and
  drops the least recently used keys down to the new capacity.
\<close>


lemma length_AList_delete:
  "distinct (map fst xs) \<Longrightarrow> k \<in> fst ` set xs \<Longrightarrow> Suc (length (AList.delete k xs)) = length xs"
proof (induction xs)
  case Nil
  then show ?case by simp
next
  case (Cons x xs)
  show ?case
  proof (cases "fst x = k")
    case True
    then have "k \<notin> fst ` set xs" using Cons.prems(1) by auto
    then have "AList.delete k xs = xs" by (simp add: delete_id)
    with True show ?thesis by (cases x) (simp add: AList.delete_eq)
  next
    case False
    with Cons show ?thesis by (auto simp: AList.delete_eq)
  qed
qed

lemma length_AList_delete_le: "length (AList.delete k xs) \<le> length xs"
  by (simp add: AList.delete_eq)

lemma length_AList_update:
  "length (AList.update k v xs) = (if k \<in> fst ` set xs then length xs else Suc (length xs))"
  by (induction xs) auto

lemma keys_AList_update: "fst ` set (AList.update k v xs) = insert k (fst ` set xs)"
  by (simp add: dom_map_of_conv_image_fst [symmetric] update_conv')

lemma keys_AList_delete: "fst ` set (AList.delete k xs) = fst ` set xs - {k}"
  by (simp add: dom_map_of_conv_image_fst [symmetric] delete_conv')

lemma map_of_None_keys: "(map_of xs k = None) = (k \<notin> fst ` set xs)"
  by (simp add: map_of_eq_None_iff)

lemma wf_delete: "lru_wf c \<Longrightarrow> lru_wf (snd (LRU_delete c key))"
  by (auto simp: lru_wf_def LRU_delete_def Let_def Set_delete_def distinct_delete
      keys_AList_delete map_of_None_keys distinct_removeAll delete_id)

lemma size_delete: "length (cache (snd (LRU_delete c key))) \<le> length (cache c)"
  by (simp add: LRU_delete_def Let_def length_AList_delete_le)

lemma config_delete: "config (snd (LRU_delete c key)) = config c"
  by (simp add: LRU_delete_def Let_def)

lemma bounded_delete: "lru_bounded c \<Longrightarrow> lru_bounded (snd (LRU_delete c key))"
  using size_delete [of c key] by (simp add: lru_bounded_def wf_delete config_delete)

lemma bounded_clear: "lru_bounded c \<Longrightarrow> lru_bounded (LRU_clear c)"
  by (simp add: lru_bounded_def lru_wf_def LRU_clear_def)

lemma wf_touch:
  assumes "lru_wf c" and "key \<in> fst ` set (cache c)"
  shows "lru_wf (c\<lparr>accessOrder := Set_add key (Set_delete key (accessOrder c))\<rparr>)"
  using assms by (auto simp: lru_wf_def Set_add_def Set_delete_def distinct_removeAll)

lemma bounded_get: "lru_bounded c \<Longrightarrow> lru_bounded (snd (LRU_get c now key))"
proof -
  assume b: "lru_bounded c"
  show ?thesis
  proof (cases "map_of (cache c) key")
    case None
    with b show ?thesis by (simp add: LRU_get_def)
  next
    case (Some e)
    then have k: "key \<in> fst ` set (cache c)" by (metis map_of_None_keys option.distinct(1))
    show ?thesis
      using b bounded_delete [of c key] wf_touch [of c key] k Some
      by (simp add: LRU_get_def lru_bounded_def)
  qed
qed


lemma wf_insert:
  assumes wf: "lru_wf c" and k: "key \<notin> fst ` set (cache c)" and ne: "key \<noteq> []"
  shows "lru_wf (c\<lparr>cache := AList.update key e (cache c), accessOrder := Set_add key (accessOrder c)\<rparr>)"
    and "length (AList.update key e (cache c)) = Suc (length (cache c))"
  using assms by (auto simp: lru_wf_def Set_add_def distinct_update keys_AList_update length_AList_update)

lemma wf_length: "lru_wf c \<Longrightarrow> length (accessOrder c) = length (cache c)"
proof -
  assume wf: "lru_wf c"
  have "length (accessOrder c) = card (set (accessOrder c))"
    using wf distinct_card [of "accessOrder c"] by (simp add: lru_wf_def)
  also have "\<dots> = card (set (map fst (cache c)))" using wf by (simp add: lru_wf_def)
  also have "\<dots> = length (map fst (cache c))"
    using wf distinct_card [of "map fst (cache c)"] by (simp add: lru_wf_def)
  finally show ?thesis by simp
qed

lemma wf_evict_head:
  assumes wf: "lru_wf c" and ao: "accessOrder c = l # rest"
  shows "lru_wf (c\<lparr>cache := AList.delete l (cache c), accessOrder := Set_delete l (accessOrder c)\<rparr>)"
    and "Suc (length (AList.delete l (cache c))) = length (cache c)"
    and "Set_delete l (accessOrder c) = rest"
    and "l \<noteq> []" and "l \<in> fst ` set (cache c)"
proof -
  have l: "l \<in> fst ` set (cache c)" using wf ao by (auto simp: lru_wf_def)
  show "l \<in> fst ` set (cache c)" by (rule l)
  show "l \<noteq> []" using wf ao by (auto simp: lru_wf_def)
  show "Suc (length (AList.delete l (cache c))) = length (cache c)"
    using wf l by (simp add: length_AList_delete lru_wf_def)
  have "l \<notin> set rest" using wf ao by (simp add: lru_wf_def)
  then show r: "Set_delete l (accessOrder c) = rest" by (simp add: ao Set_delete_def)
  show "lru_wf (c\<lparr>cache := AList.delete l (cache c), accessOrder := Set_delete l (accessOrder c)\<rparr>)"
    using wf ao r by (auto simp: lru_wf_def distinct_delete keys_AList_delete)
qed

lemma bounded_set:
  assumes b: "lru_bounded c" and ne: "key \<noteq> []"
  shows "lru_bounded (LRU_set c now key v t)"
proof (cases "enabled (config c)")
  case False
  with b show ?thesis by (simp add: LRU_set_def)
next
  case en: True
  from b have wf: "lru_wf c" and le: "int (length (cache c)) \<le> maxSize (config c)"
    and m1: "1 \<le> maxSize (config c)" by (simp_all add: lru_bounded_def)
  show ?thesis
  proof (cases "key \<in> fst ` set (cache c)")
    case True
    then show ?thesis
      using b en wf_touch [of c key] 
      by (auto simp: LRU_set_def Let_def lru_bounded_def map_of_None_keys length_AList_update
          lru_wf_def distinct_update keys_AList_update)
  next
    case nk: False
    show ?thesis
    proof (cases "int (length (cache c)) \<ge> maxSize (config c)")
      case False
      then show ?thesis
        using en nk m1 wf_insert [OF wf nk ne]
        by (simp add: LRU_set_def Let_def lru_bounded_def map_of_None_keys)
    next
      case full: True
      then have "cache c \<noteq> []" using m1 by auto
      then have "accessOrder c \<noteq> []" using wf_length [OF wf] by auto
      then obtain l rest where ao: "accessOrder c = l # rest" by (cases "accessOrder c") auto
      let ?c1 = "c\<lparr>cache := AList.delete l (cache c), accessOrder := Set_delete l (accessOrder c)\<rparr>"
      note ev = wf_evict_head [OF wf ao]
      have nk1: "key \<notin> fst ` set (cache ?c1)" using nk by (simp add: keys_AList_delete)
      note ins = wf_insert [OF ev(1) nk1 ne]
      have eq: "LRU_set c now key v t =
          ?c1\<lparr>cache := AList.update key \<lparr>data = v, timestamp = now,
                     ttl = (case t of Some t \<Rightarrow> t | None \<Rightarrow> defaultTtl (config c))\<rparr> (cache ?c1),
               accessOrder := Set_add key (accessOrder ?c1)\<rparr>"
        using en nk full ao ev(4) by (simp add: LRU_set_def Let_def map_of_None_keys)
      show ?thesis
        unfolding eq lru_bounded_def using ins ev(2) le m1 by simp
    qed
  qed
qed

lemma evict_excess_returns:
  assumes "lru_wf c" and "0 \<le> maxSize (config c)"
  shows "\<exists>c'. evict_excess c = Some c' \<and> lru_wf c' \<and> config c' = config c \<and>
           length (cache c') = min (length (cache c)) (nat (maxSize (config c))) \<and>
           accessOrder c' = drop (length (cache c) - length (cache c')) (accessOrder c)"
  using assms
proof (induction "length (cache c)" arbitrary: c)
  case 0
  then show ?case by (subst evict_excess.simps) simp
next
  case (Suc n)
  show ?case
  proof (cases "int (length (cache c)) > maxSize (config c)")
    case False
    then show ?thesis using Suc.prems by (subst evict_excess.simps) simp
  next
    case over: True
    have "accessOrder c \<noteq> []" using wf_length [OF Suc.prems(1)] Suc.hyps(2) by auto
    then obtain l rest where ao: "accessOrder c = l # rest" by (cases "accessOrder c") auto
    note ev = wf_evict_head [OF Suc.prems(1) ao]
    let ?c1 = "c\<lparr>cache := AList.delete l (cache c), accessOrder := Set_delete l (accessOrder c)\<rparr>"
    have del: "snd (LRU_delete c l) = ?c1"
      using ev(5) by (simp add: LRU_delete_def Let_def map_of_None_keys)
    have step: "evict_excess c = evict_excess ?c1"
      using over ao ev(4) del by (subst evict_excess.simps) simp
    have n: "n = length (cache ?c1)" using ev(2) Suc.hyps(2) by simp
    from Suc.hyps(1) [OF n ev(1)] Suc.prems(2)
    obtain c' where c': "evict_excess ?c1 = Some c'" "lru_wf c'" "config c' = config c"
      "length (cache c') = min (length (cache ?c1)) (nat (maxSize (config c)))"
      "accessOrder c' = drop (length (cache ?c1) - length (cache c')) (accessOrder ?c1)"
      by auto
    have len: "length (cache c') = min (length (cache c)) (nat (maxSize (config c)))"
      using c'(4) ev(2) over by auto
    have "accessOrder c' = drop (length (cache c) - length (cache c')) (accessOrder c)"
    proof -
      have "length (cache c) - length (cache c') = Suc (length (cache ?c1) - length (cache c'))"
        using c'(4) ev(2) by auto
      then show ?thesis using c'(5) ev(3) ao by simp
    qed
    with step c' len show ?thesis by simp
  qed
qed

lemma bounded_updateConfig:
  assumes b: "lru_bounded c" and ok: "case maxSize_opt p of None \<Rightarrow> True | Some m \<Rightarrow> 1 \<le> m"
  shows "\<exists>c'. LRU_updateConfig c p = Some c' \<and> lru_bounded c'"
proof -
  let ?c1 = "c\<lparr>config := spread_config (config c) p\<rparr>"
  let ?c2 = "if \<not> enabled (config ?c1) then LRU_clear ?c1 else ?c1"
  have m: "1 \<le> maxSize (config ?c2)"
    using b ok by (auto simp: lru_bounded_def spread_config_def LRU_clear_def split: option.splits)
  have wf: "lru_wf ?c2" using b by (auto simp: lru_bounded_def lru_wf_def LRU_clear_def)
  from evict_excess_returns [OF wf] m
  obtain c' where c': "evict_excess ?c2 = Some c'" "lru_wf c'" "config c' = config ?c2"
      "length (cache c') = min (length (cache ?c2)) (nat (maxSize (config ?c2)))"
    by auto
  have "lru_bounded c'"
    unfolding lru_bounded_def using c'(2,3,4) m by auto
  with c'(1) show ?thesis by (auto simp: LRU_updateConfig_def Let_def)
qed

lemma bounded_apply:
  assumes "lru_bounded c" and "op_ok x"
  shows "\<exists>c'. lru_apply c x = Some c' \<and> lru_bounded c'"
  using assms
  by (cases x) (simp_all add: bounded_set bounded_get bounded_delete bounded_clear bounded_updateConfig)

lemma bounded_run:
  assumes "lru_bounded c" and "list_all op_ok xs"
  shows "\<exists>c'. lru_run c xs = Some c' \<and> lru_bounded c'"
  using assms
proof (induction xs arbitrary: c)
  case Nil
  then show ?case by simp
next
  case (Cons x xs)
  from bounded_apply [of c x] Cons.prems obtain c1 where c1: "lru_apply c x = Some c1" "lru_bounded c1"
    by auto
  with Cons.IH [of c1] Cons.prems show ?case by simp
qed

lemma bounded_new:
  "(case maxSize_opt p of None \<Rightarrow> True | Some m \<Rightarrow> 1 \<le> m) \<Longrightarrow> lru_bounded (new_LRUCache p)"
  by (auto simp: lru_bounded_def lru_wf_def new_LRUCache_def spread_config_def split: option.splits)

lemma lru_set_evicts_lru:
  assumes b: "lru_bounded c" and en: "enabled (config c)" and ne: "key \<noteq> []"
    and nk: "key \<notin> cache_keys c" and full: "int (length (cache c)) = maxSize (config c)"
  shows "hd (accessOrder c) \<in> cache_keys c \<and>
    cache_keys (LRU_set c now key v t) = insert key (cache_keys c - {hd (accessOrder c)}) \<and>
    LRU_size (LRU_set c now key v t) = LRU_size c"
proof -
  from b have wf: "lru_wf c" and m1: "1 \<le> maxSize (config c)" by (simp_all add: lru_bounded_def)
  have "cache c \<noteq> []" using m1 full by auto
  then have "accessOrder c \<noteq> []" using wf_length [OF wf] by auto
  then obtain l rest where ao: "accessOrder c = l # rest" by (cases "accessOrder c") auto
  note ev = wf_evict_head [OF wf ao]
  have nk1: "key \<notin> fst ` set (AList.delete l (cache c))"
    using nk by (simp add: keys_AList_delete cache_keys_def)
  show ?thesis
    using en nk full ao ev(2,4,5) nk1
    by (simp add: LRU_set_def Let_def map_of_None_keys cache_keys_def LRU_size_def
        keys_AList_update keys_AList_delete length_AList_update)
qed

lemma lru_shrink_evicts_lru:
  assumes b: "lru_bounded c" and en: "enabled (config c)" and m: "1 \<le> m"
  shows "\<exists>c'. LRU_updateConfig c (no_config\<lparr>maxSize_opt := Some m\<rparr>) = Some c' \<and>
    maxSize (config c') = m \<and>
    LRU_size c' = min (LRU_size c) (nat m) \<and>
    accessOrder c' = drop (LRU_size c - LRU_size c') (accessOrder c)"
proof -
  let ?c1 = "c\<lparr>config := spread_config (config c) (no_config\<lparr>maxSize_opt := Some m\<rparr>)\<rparr>"
  have cfg: "config ?c1 = (config c)\<lparr>maxSize := m\<rparr>"
    by (simp add: spread_config_def no_config_def)
  have wf: "lru_wf ?c1" using b by (auto simp: lru_bounded_def lru_wf_def)
  have m0: "0 \<le> maxSize (config ?c1)" using m by (simp add: cfg)
  from evict_excess_returns [OF wf m0]
  obtain c' where c': "evict_excess ?c1 = Some c'" "config c' = config ?c1"
      "length (cache c') = min (length (cache ?c1)) (nat (maxSize (config ?c1)))"
      "accessOrder c' = drop (length (cache ?c1) - length (cache c')) (accessOrder ?c1)"
    by auto
  have "LRU_updateConfig c (no_config\<lparr>maxSize_opt := Some m\<rparr>) = Some c'"
    using c'(1) en by (simp add: LRU_updateConfig_def Let_def cfg)
  then show ?thesis using c'(2,3,4) by (simp add: cfg LRU_size_def)
qed

text \<open>
  Claim C6. The bound fails on the code. With \<^verbatim>\<open>maxSize: 0\<close> the eviction step of
  \<^verbatim>\<open>set\<close> finds no key to evict and the entry is stored all the same: one entry in a
  cache of capacity 0. With \<^verbatim>\<open>maxSize: 1\<close>, when the least recently used key is the
  empty string the guard \<^verbatim>\<open>if (lruKey)\<close> skips the eviction: two entries in a cache of
  capacity 1. (\<open>LRU_stats\<close> is size, \<^verbatim>\<open>maxSize\<close>, \<^verbatim>\<open>enabled\<close>.)
\<close>

theorem lru_size_exceeds_maxSize:
  "LRU_stats (LRU_set (new_LRUCache (no_config\<lparr>maxSize_opt := Some 0\<rparr>)) now ''k'' v None) =
     (1, 0, True) \<and>
   LRU_stats (LRU_set (LRU_set (new_LRUCache (no_config\<lparr>maxSize_opt := Some 1\<rparr>)) now [] v None)
       now ''a'' w None) = (2, 1, True)"
  by (simp add: LRU_stats_def LRU_set_def new_LRUCache_def no_config_def spread_config_def
      Set_add_def Let_def)

section \<open>Theorems: retries\<close>


lemma fetchWithRetry_all_transient:
  assumes fail: "\<forall>n. \<exists>e. fetch n = Inl e \<and> isRetryable e"
  shows "0 \<le> r \<Longrightarrow>
    fst (fetchWithRetry t fetch url r n) = fetch (n + nat r) \<and>
    attempts (snd (fetchWithRetry t fetch url r n)) = Suc (nat r) \<and>
    delays (snd (fetchWithRetry t fetch url r n)) =
      map (\<lambda>k. retryDelay t * (maxRetries t - r + 1 + int k)) [0 ..< nat r]"
proof (induction "nat r" arbitrary: r n)
  case 0
  then have r: "r = 0" by simp
  from fail obtain e where e: "fetch n = Inl e" by blast
  show ?case unfolding r by (simp add: fetchWithRetry.simps [of t fetch url 0 n] e)
next
  case (Suc m)
  then have r: "0 < r" and m: "m = nat (r - 1)" and r1: "0 \<le> r - 1" by auto
  from fail obtain e where e: "fetch n = Inl e" "isRetryable e" by blast
  note IH = Suc.hyps(1) [OF m r1, of "Suc n"]
  let ?R = "fetchWithRetry t fetch url (r - 1) (Suc n)"
  let ?g = "\<lambda>k. retryDelay t * (maxRetries t - r + 1 + int k)"
  have eq: "fetchWithRetry t fetch url r n =
      (fst ?R, Fetch url # Delay (retryDelay t * (maxRetries t - r + 1)) # snd ?R)"
    by (simp add: fetchWithRetry.simps [of t fetch url r n] e r split_beta)
  have nr: "nat r = Suc (nat (r - 1))" using r by simp
  have idx: "Suc n + nat (r - 1) = n + nat r" using r by simp
  have up: "[0 ..< Suc k] = 0 # map Suc [0 ..< k]" for k
    by (simp add: upt_conv_Cons map_Suc_upt del: upt_Suc)
  have dl: "map ?g [0 ..< nat r] = ?g 0 # map (\<lambda>k. ?g (Suc k)) [0 ..< nat (r - 1)]"
    by (simp only: nr up list.map map_map o_def)
  have shift: "(\<lambda>k. retryDelay t * (maxRetries t - (r - 1) + 1 + int k)) = (\<lambda>k. ?g (Suc k))"
    by (rule ext) simp
  have "fst ?R = fetch (Suc n + nat (r - 1))" using IH by blast
  then have "fst (fetchWithRetry t fetch url r n) = fetch (n + nat r)"
    unfolding idx by (simp add: eq)
  moreover have "attempts (snd ?R) = Suc (nat (r - 1))" using IH by blast
  then have "attempts (snd (fetchWithRetry t fetch url r n)) = Suc (nat r)"
    unfolding nr [symmetric] by (simp add: eq)
  moreover have "delays (snd ?R) = map (\<lambda>k. ?g (Suc k)) [0 ..< nat (r - 1)]"
    using IH unfolding shift by blast
  then have "delays (snd (fetchWithRetry t fetch url r n)) = map ?g [0 ..< nat r]"
    unfolding dl by (simp add: eq)
  ultimately show ?case by blast
qed

lemma fetchWithRetry_not_retryable:
  "fetch n = Inl e \<Longrightarrow> \<not> isRetryable e \<Longrightarrow> fetchWithRetry t fetch url r n = (Inl e, [Fetch url])"
  by (simp add: fetchWithRetry.simps [of t fetch url r n])

lemma fetchWithRetry_success:
  "fetch n = Inr response \<Longrightarrow> fetchWithRetry t fetch url r n = (Inr response, [Fetch url])"
  by (simp add: fetchWithRetry.simps [of t fetch url r n])

lemma fetchWithRetry_retry_once:
  assumes "fetch n = Inl e" "isRetryable e" "0 < r" "fetch (Suc n) = Inr response"
  shows "fetchWithRetry t fetch url r n =
    (Inr response, [Fetch url, Delay (retryDelay t * (maxRetries t - r + 1)), Fetch url])"
  using assms fetchWithRetry_success [of fetch "Suc n" response t url "r - 1"]
  by (simp add: fetchWithRetry.simps [of t fetch url r n])


lemma scheduled_request_failure:
  assumes "fetchWithRetry t fetch (request_url rt t baseUrl ps) (maxRetries t) 0 = (Inl e, evs)"
  shows "scheduled_request rt t later fetch baseUrl ps cacheKey schema allowed =
    (Inl (if (case e of ErrorObject name message \<Rightarrow> name = ''AbortError'' | OtherValue \<Rightarrow> False)
          then EtherscanError ''Request Timeout'' 408 ''TIMEOUT_ERROR''
          else EtherscanError ''Network Error'' 0 ''NETWORK_ERROR''), t, evs)"
  using assms by (simp add: scheduled_request_def Let_def split: thrown.splits)

text \<open>
  Claim C5. With a retry budget \<^verbatim>\<open>maxRetries\<close> that is not negative: when every attempt
  fails with a retryable error, \<^verbatim>\<open>fetchWithRetry\<close> calls \<^verbatim>\<open>fetch\<close> exactly
  \<open>1 + maxRetries\<close> times, waits \<open>retryDelay * k\<close> before the \<open>k\<close>-th retry, and throws the
  last failure, which the scheduled function turns into the Request Timeout error (408,
  for an AbortError) or the Network Error. When the first attempt fails with a retryable
  error, the second succeeds and the budget is positive, the result is that response,
  after two calls of \<^verbatim>\<open>fetch\<close> and one wait of \<open>retryDelay\<close>. A failure that is not
  retryable is thrown at once, whatever the budget left: no further call of \<^verbatim>\<open>fetch\<close>
  and no wait.
\<close>

theorem fetch_retry_policy:
  assumes budget: "0 \<le> maxRetries t"
  shows "((\<forall>n. \<exists>e. fetch n = Inl e \<and> isRetryable e) \<longrightarrow>
        attempts (snd (fetchWithRetry t fetch url (maxRetries t) 0)) = 1 + nat (maxRetries t) \<and>
        delays (snd (fetchWithRetry t fetch url (maxRetries t) 0)) =
          map (\<lambda>k. retryDelay t * int k) [1 ..< 1 + nat (maxRetries t)] \<and>
        fst (fetchWithRetry t fetch url (maxRetries t) 0) = fetch (nat (maxRetries t)) \<and>
        (fst (scheduled_request rt t later fetch baseUrl ps cacheKey schema allowed) =
           Inl (EtherscanError ''Request Timeout'' 408 ''TIMEOUT_ERROR'') \<or>
         fst (scheduled_request rt t later fetch baseUrl ps cacheKey schema allowed) =
           Inl (EtherscanError ''Network Error'' 0 ''NETWORK_ERROR'')) \<and>
        attempts (snd (snd (scheduled_request rt t later fetch baseUrl ps cacheKey schema allowed))) =
          1 + nat (maxRetries t)) \<and>
    (\<forall>e response. fetch 0 = Inl e \<and> isRetryable e \<and> fetch 1 = Inr response \<and> 0 < maxRetries t \<longrightarrow>
        fetchWithRetry t fetch url (maxRetries t) 0 =
          (Inr response, [Fetch url, Delay (retryDelay t), Fetch url])) \<and>
    (\<forall>e r n. fetch n = Inl e \<and> \<not> isRetryable e \<longrightarrow>
        fetchWithRetry t fetch url r n = (Inl e, [Fetch url]))"
proof (intro conjI allI impI)
  assume fail: "\<forall>n. \<exists>e. fetch n = Inl e \<and> isRetryable e"
  note all = fetchWithRetry_all_transient [OF fail budget, of t url 0]
  show a: "attempts (snd (fetchWithRetry t fetch url (maxRetries t) 0)) = 1 + nat (maxRetries t)"
    using all by simp
  have "map (\<lambda>k. retryDelay t * (1 + int k)) [0 ..< nat (maxRetries t)] =
      map (\<lambda>k. retryDelay t * int k) (map Suc [0 ..< nat (maxRetries t)])"
    by (simp add: o_def add.commute)
  then show "delays (snd (fetchWithRetry t fetch url (maxRetries t) 0)) =
      map (\<lambda>k. retryDelay t * int k) [1 ..< 1 + nat (maxRetries t)]"
    using all by (simp add: map_Suc_upt del: upt_Suc)
  show f: "fst (fetchWithRetry t fetch url (maxRetries t) 0) = fetch (nat (maxRetries t))"
    using all by simp
  from fail obtain e where e: "fetch (nat (maxRetries t)) = Inl e" by blast
  let ?u = "request_url rt t baseUrl ps"
  note all' = fetchWithRetry_all_transient [OF fail budget, of t ?u 0]
  have R: "fetchWithRetry t fetch ?u (maxRetries t) 0 =
      (Inl e, snd (fetchWithRetry t fetch ?u (maxRetries t) 0))"
    using all' e by (simp add: prod_eq_iff)
  note sr = scheduled_request_failure [OF R, of later cacheKey schema allowed]
  show "fst (scheduled_request rt t later fetch baseUrl ps cacheKey schema allowed) =
           Inl (EtherscanError ''Request Timeout'' 408 ''TIMEOUT_ERROR'') \<or>
        fst (scheduled_request rt t later fetch baseUrl ps cacheKey schema allowed) =
           Inl (EtherscanError ''Network Error'' 0 ''NETWORK_ERROR'')"
    unfolding sr by simp
  show "attempts (snd (snd (scheduled_request rt t later fetch baseUrl ps cacheKey schema allowed))) =
          1 + nat (maxRetries t)"
    unfolding sr using all' by simp
next
  fix e response
  assume "fetch 0 = Inl e \<and> isRetryable e \<and> fetch 1 = Inr response \<and> 0 < maxRetries t"
  then show "fetchWithRetry t fetch url (maxRetries t) 0 =
      (Inr response, [Fetch url, Delay (retryDelay t), Fetch url])"
    using fetchWithRetry_retry_once [of fetch 0 e "maxRetries t" response t url] by simp
next
  fix e r n
  assume "fetch n = Inl e \<and> \<not> isRetryable e"
  then show "fetchWithRetry t fetch url r n = (Inl e, [Fetch url])"
    by (simp add: fetchWithRetry_not_retryable)
qed


theorem fetch_retry_policy_witness:
  "0 \<le> maxRetries (new_Transport 1 ''k'' 30000 2 1000 []) \<and>
   attempts (snd (fetchWithRetry (new_Transport 1 ''k'' 30000 2 1000 [])
      (\<lambda>n. Inl (ErrorObject ''Error'' ''read ECONNRESET'')) ''u'' 2 0)) = 3 \<and>
   delays (snd (fetchWithRetry (new_Transport 1 ''k'' 30000 2 1000 [])
      (\<lambda>n. Inl (ErrorObject ''Error'' ''read ECONNRESET'')) ''u'' 2 0)) = [1000, 2000] \<and>
   fetchWithRetry (new_Transport 1 ''k'' 30000 2 1000 [])
      (\<lambda>n. if n = 0 then Inl (ErrorObject ''Error'' ''read ECONNRESET'') else Inr (json_response ''{}''))
      ''u'' 2 0 = (Inr (json_response ''{}''), [Fetch ''u'', Delay 1000, Fetch ''u'']) \<and>
   fetchWithRetry (new_Transport 1 ''k'' 30000 2 1000 [])
      (\<lambda>n. Inl (ErrorObject ''Error'' ''boom'')) ''u'' 2 0 =
      (Inl (ErrorObject ''Error'' ''boom''), [Fetch ''u''])"
proof -
  let ?t = "new_Transport 1 ''k'' 30000 2 1000 []"
  have b: "0 \<le> maxRetries ?t" by (simp add: new_Transport_def)
  have m: "maxRetries ?t = 2" "retryDelay ?t = 1000" by (simp_all add: new_Transport_def)
  have r: "isRetryable (ErrorObject ''Error'' ''read ECONNRESET'')"
    "\<not> isRetryable (ErrorObject ''Error'' ''boom'')"
    by (simp_all add: isRetryable_def)
  have up: "[1 ..< 1 + nat 2] = [1, 2]" by (simp add: upt_conv_Cons)
  show ?thesis
    using b
      fetch_retry_policy [OF b, of "\<lambda>n. Inl (ErrorObject ''Error'' ''read ECONNRESET'')" "''u''"]
      fetch_retry_policy [OF b, of "\<lambda>n. if n = 0 then Inl (ErrorObject ''Error'' ''read ECONNRESET'')
          else Inr (json_response ''{}'')" "''u''"]
      fetch_retry_policy [OF b, of "\<lambda>n. Inl (ErrorObject ''Error'' ''boom'')" "''u''"]
    unfolding m by (simp add: r up)
qed

section \<open>Theorems: the envelope of the canonical endpoint\<close>


lemma fetchWithRetry_tcache:
  "fetchWithRetry (t\<lparr>tcache := c\<rparr>) fetch url r n = fetchWithRetry t fetch url r n"
proof (induction "nat r" arbitrary: r n)
  case 0
  then show ?case
    by (simp add: fetchWithRetry.simps [of _ fetch url r n] split: sum.splits)
next
  case (Suc m)
  then have "m = nat (r - 1)" by simp
  from Suc.hyps(1) [OF this, of "Suc n"] show ?case
    by (simp add: fetchWithRetry.simps [of _ fetch url r n] split: sum.splits)
qed

lemma request_url_tcache: "request_url rt (t\<lparr>tcache := c\<rparr>) baseUrl ps = request_url rt t baseUrl ps"
  by (simp add: request_url_def injected_params_def)

lemma handle_response_json:
  assumes "ok response" and "declares_json response" and "within_size_budget response"
    and "JSON_parse rt (body_text response) = Some json"
  shows "handle_response rt t now baseUrl cacheKey schema allowed response =
    (case (if baseUrl = V2_ENDPOINT then handle_envelope rt schema json else Inr (schema json)) of
       Inl early \<Rightarrow> (early, t)
     | Inr (Inl issues) \<Rightarrow>
         (Inl (ValidationError (''Failed to parse Etherscan response: '' @ format_issues issues)), t)
     | Inr (Inr validatedData) \<Rightarrow> cache_and_return t now cacheKey validatedData)"
proof -
  from assms(2) obtain ct where ct: "content_type response = Some ct" "str_includes ct ''application/json''"
    by (auto simp: declares_json_def split: option.splits)
  show ?thesis
    unfolding handle_response_def
    using assms(1,3,4) ct
    by (simp add: within_size_budget_def Let_def del: str_includes.simps)
qed

lemma getWithUrl_miss:
  assumes "isAllowed rt t baseUrl" and "parse_URL rt baseUrl = Some (origin, ''https:'')"
    and "fst (LRU_get (tcache t) now (createCacheKey rt t baseUrl (applyRequestInterceptors (interceptors t) ps))) = None \<or>
         fst (LRU_get (tcache t) now (createCacheKey rt t baseUrl (applyRequestInterceptors (interceptors t) ps))) = Some VNull"
  shows "getWithUrl rt t now later fetch baseUrl ps schema opts =
    scheduled_request rt
      (t\<lparr>tcache := snd (LRU_get (tcache t) now
          (createCacheKey rt t baseUrl (applyRequestInterceptors (interceptors t) ps)))\<rparr>)
      later fetch baseUrl (applyRequestInterceptors (interceptors t) ps)
      (createCacheKey rt t baseUrl (applyRequestInterceptors (interceptors t) ps)) schema
      (case opts of None \<Rightarrow> [] | Some a \<Rightarrow> a)"
  using assms by (auto simp: getWithUrl_def Let_def split_beta)

lemma scheduled_request_response:
  assumes "fst (fetchWithRetry t fetch (request_url rt t baseUrl ips) (maxRetries t) 0) = Inr response"
  shows "scheduled_request rt t later fetch baseUrl ips cacheKey schema allowed =
    (fst (handle_response rt t later baseUrl cacheKey schema allowed response),
     snd (handle_response rt t later baseUrl cacheKey schema allowed response),
     snd (fetchWithRetry t fetch (request_url rt t baseUrl ips) (maxRetries t) 0))"
  using assms by (simp add: scheduled_request_def Let_def split_beta split: prod.splits sum.splits)

lemma getWithUrl_envelope:
  assumes env: "canonical_envelope rt t now fetch ps json"
  shows "fst (getWithUrl rt t now later fetch V2_ENDPOINT ps schema opts) =
    (case handle_envelope rt schema json of
       Inl early \<Rightarrow> early
     | Inr (Inl issues) \<Rightarrow>
         Inl (ValidationError (''Failed to parse Etherscan response: '' @ format_issues issues))
     | Inr (Inr validatedData) \<Rightarrow> Inr (applyResponseInterceptors (interceptors t) validatedData))"
proof -
  let ?ips = "applyRequestInterceptors (interceptors t) ps"
  let ?key = "createCacheKey rt t V2_ENDPOINT ?ips"
  let ?t1 = "t\<lparr>tcache := snd (LRU_get (tcache t) now ?key)\<rparr>"
  from env obtain origin where url: "parse_URL rt V2_ENDPOINT = Some (origin, ''https:'')"
    by (auto simp: canonical_envelope_def)
  from env have al: "isAllowed rt t V2_ENDPOINT" by (simp add: canonical_envelope_def)
  from env have miss: "fst (LRU_get (tcache t) now ?key) = None \<or> fst (LRU_get (tcache t) now ?key) = Some VNull"
    by (simp add: canonical_envelope_def Let_def)
  from env obtain response where
    resp: "fst (fetchWithRetry t fetch (request_url rt t V2_ENDPOINT ?ips) (maxRetries t) 0) = Inr response"
    and chk: "ok response" "declares_json response" "within_size_budget response"
      "JSON_parse rt (body_text response) = Some json"
    by (auto simp: canonical_envelope_def Let_def split: sum.splits)
  have resp1: "fst (fetchWithRetry ?t1 fetch (request_url rt ?t1 V2_ENDPOINT ?ips) (maxRetries ?t1) 0) = Inr response"
    using resp by (simp add: fetchWithRetry_tcache request_url_tcache)
  show ?thesis
    unfolding getWithUrl_miss [OF al url miss] scheduled_request_response [OF resp1]
      handle_response_json [OF chk]
    by (simp add: cache_and_return_def split: sum.splits)
qed


lemmas demo_defs = canonical_envelope_def test_runtime_def demo_transport_def demo_fetch_def
      new_Transport_def isAllowed_def V2_ENDPOINT_def applyRequestInterceptors_def
      createCacheKey_def injected_params_def LRU_get_def new_LRUCache_def no_config_def
      spread_config_def fetchWithRetry.simps json_response_def declares_json_def
      within_size_budget_def MAX_RESPONSE_SIZE_def request_url_def addResponseInterceptor_def

lemma demo_envelope: "canonical_envelope (test_runtime ''{}'' json) demo_transport 0 demo_fetch [] json"
  by (simp add: demo_defs)

lemma demo_envelope_intercepted:
  "canonical_envelope (test_runtime ''{}'' json) (addResponseInterceptor demo_transport f) 0 demo_fetch [] json"
  by (simp add: demo_defs)




text \<open>
  Claim C3. On an envelope of the canonical endpoint with status \<^verbatim>\<open>'0'\<close> and the message
  \<^verbatim>\<open>No transactions found\<close>, \<^verbatim>\<open>getWithUrl\<close> does not throw: it returns the empty array
  when the schema accepts \<^verbatim>\<open>[]\<close>, and \<^verbatim>\<open>null\<close> otherwise.
\<close>

theorem empty_result_sentinel_returns_empty:
  assumes "canonical_envelope rt t now fetch ps json"
    and "get_prop json ''status'' = VStr ''0''"
    and "get_prop json ''message'' = VStr ''No transactions found''"
  shows "fst (getWithUrl rt t now later fetch V2_ENDPOINT ps schema opts) =
    Inr (case schema (VArr []) of Inr accepted \<Rightarrow> VArr [] | Inl issues \<Rightarrow> VNull)"
proof -
  have "\<not> nullish json" using assms(2) by (auto simp: nullish_def get_prop_def)
  then have "handle_envelope rt schema json =
      Inl (Inr (case schema (VArr []) of Inr accepted \<Rightarrow> VArr [] | Inl issues \<Rightarrow> VNull))"
    using assms(2,3) by (simp add: handle_envelope_def Let_def split: sum.splits)
  then show ?thesis by (simp add: getWithUrl_envelope [OF assms(1)])
qed

theorem empty_result_sentinel_returns_empty_witness:
  "canonical_envelope (test_runtime ''{}'' (envelope ''0'' ''No transactions found'' (VStr '''')))
     demo_transport 0 demo_fetch [] (envelope ''0'' ''No transactions found'' (VStr '''')) \<and>
   get_prop (envelope ''0'' ''No transactions found'' (VStr '''')) ''status'' = VStr ''0'' \<and>
   fst (getWithUrl (test_runtime ''{}'' (envelope ''0'' ''No transactions found'' (VStr '''')))
     demo_transport 0 1 demo_fetch V2_ENDPOINT [] Inr None) = Inr (VArr []) \<and>
   fst (getWithUrl (test_runtime ''{}'' (envelope ''0'' ''No transactions found'' (VStr '''')))
     demo_transport 0 1 demo_fetch V2_ENDPOINT [] (\<lambda>v. Inl [([], ''Expected string'')]) None) = Inr VNull"
proof -
  let ?json = "envelope ''0'' ''No transactions found'' (VStr '''')"
  have p: "get_prop ?json ''status'' = VStr ''0''"
    "get_prop ?json ''message'' = VStr ''No transactions found''"
    by (simp_all add: envelope_def get_prop_def)
  show ?thesis
    using demo_envelope [of ?json] p(1)
      empty_result_sentinel_returns_empty [OF demo_envelope p, of 1 Inr None]
      empty_result_sentinel_returns_empty [OF demo_envelope p, of 1 "\<lambda>v. Inl [([], ''Expected string'')]" None]
    by simp
qed

text \<open>
  Claim C2. The response interceptors are applied to the cached value on a cache hit
  and to the validated data of a fresh response, but the empty-result branch returns
  \<^verbatim>\<open>[]\<close> (or \<^verbatim>\<open>null\<close>) before they run: with one interceptor that wraps its input, the
  caller gets the bare empty array, not the wrapped one.
\<close>

theorem empty_result_skips_response_interceptors:
  "fst (getWithUrl (test_runtime ''{}'' (envelope ''0'' ''No transactions found'' (VStr '''')))
     (addResponseInterceptor demo_transport (\<lambda>v. VObj [(''wrapped'', v)])) 0 1 demo_fetch
     V2_ENDPOINT [] Inr None) = Inr (VArr []) \<and>
   applyResponseInterceptors
     (interceptors (addResponseInterceptor demo_transport (\<lambda>v. VObj [(''wrapped'', v)])))
     (VArr []) = VObj [(''wrapped'', VArr [])]"
proof -
  let ?json = "envelope ''0'' ''No transactions found'' (VStr '''')"
  have n: "\<not> nullish ?json" by (simp add: nullish_def envelope_def)
  have h: "handle_envelope (test_runtime ''{}'' ?json) Inr ?json = Inl (Inr (VArr []))"
    by (simp add: handle_envelope_def nullish_def Let_def envelope_def get_prop_def)
  have a: "applyResponseInterceptors
     (interceptors (addResponseInterceptor demo_transport (\<lambda>v. VObj [(''wrapped'', v)])))
     (VArr []) = VObj [(''wrapped'', VArr [])]"
    by (simp add: applyResponseInterceptors_def addResponseInterceptor_def demo_transport_def
        new_Transport_def)
  show ?thesis
    using getWithUrl_envelope [OF demo_envelope_intercepted, of ?json "\<lambda>v. VObj [(''wrapped'', v)]" 1 Inr None] h a
    by simp
qed

text \<open>
  Where the response interceptors do run: on a cache hit, and on every value that
  \<^verbatim>\<open>getWithUrl\<close> returns other than the two of the empty-result branch.
\<close>


lemma cache_hit_applies_response_interceptors:
  assumes "isAllowed rt t baseUrl" and "parse_URL rt baseUrl = Some (origin, ''https:'')"
    and "fst (LRU_get (tcache t) now
           (createCacheKey rt t baseUrl (applyRequestInterceptors (interceptors t) ps))) = Some v"
    and "v \<noteq> VNull"
  shows "fst (getWithUrl rt t now later fetch baseUrl ps schema opts) =
      Inr (applyResponseInterceptors (interceptors t) v) \<and>
    snd (snd (getWithUrl rt t now later fetch baseUrl ps schema opts)) = []"
  using assms by (simp add: getWithUrl_def Let_def split_beta)

lemma handle_envelope_returns:
  "handle_envelope rt schema json = Inl (Inr v) \<Longrightarrow> v = VArr [] \<or> v = VNull"
  by (auto simp: handle_envelope_def Let_def split: if_splits sum.splits)

lemma handle_response_returns:
  assumes "fst (handle_response rt t now baseUrl cacheKey schema allowed response) = Inr v"
  shows "(\<exists>u. v = applyResponseInterceptors (interceptors t) u) \<or>
    (baseUrl = V2_ENDPOINT \<and> (v = VArr [] \<or> v = VNull))"
proof (cases "ok response \<and> declares_json response \<and> within_size_budget response")
  case True
  show ?thesis
  proof (cases "JSON_parse rt (body_text response)")
    case None
    from True obtain ct where "content_type response = Some ct" "str_includes ct ''application/json''"
      by (auto simp: declares_json_def split: option.splits)
    with assms True None show ?thesis
      by (simp add: handle_response_def within_size_budget_def Let_def del: str_includes.simps)
  next
    case (Some json)
    from True have chk: "ok response" "declares_json response" "within_size_budget response" by simp_all
    show ?thesis
      using assms handle_envelope_returns [of rt schema json]
      unfolding handle_response_json [OF chk Some]
      by (auto simp: cache_and_return_def split: if_splits sum.splits)
  qed
next
  case False
  with assms show ?thesis
    unfolding handle_response_def within_size_budget_def declares_json_def Let_def
    by (auto simp: cache_and_return_def simp del: str_includes.simps
        split: if_splits sum.splits option.splits)
qed

lemma scheduled_request_returns:
  assumes "fst (scheduled_request rt t later fetch baseUrl ips cacheKey schema allowed) = Inr v"
  shows "(\<exists>u. v = applyResponseInterceptors (interceptors t) u) \<or>
    (baseUrl = V2_ENDPOINT \<and> (v = VArr [] \<or> v = VNull))"
proof (cases "fst (fetchWithRetry t fetch (request_url rt t baseUrl ips) (maxRetries t) 0)")
  case (Inl e)
  with assms show ?thesis
    by (auto simp: scheduled_request_def Let_def split: prod.splits thrown.splits if_splits)
next
  case (Inr response)
  from assms have "fst (handle_response rt t later baseUrl cacheKey schema allowed response) = Inr v"
    unfolding scheduled_request_response [OF Inr] by simp
  then show ?thesis by (rule handle_response_returns)
qed

lemma getWithUrl_returns:
  assumes "fst (getWithUrl rt t now later fetch baseUrl ps schema opts) = Inr v"
  shows "(\<exists>u. v = applyResponseInterceptors (interceptors t) u) \<or>
    (baseUrl = V2_ENDPOINT \<and> (v = VArr [] \<or> v = VNull))"
  using assms
    scheduled_request_returns [of rt "t\<lparr>tcache := snd (LRU_get (tcache t) now
          (createCacheKey rt t baseUrl (applyRequestInterceptors (interceptors t) ps)))\<rparr>"
      later fetch baseUrl "applyRequestInterceptors (interceptors t) ps"
      "createCacheKey rt t baseUrl (applyRequestInterceptors (interceptors t) ps)" schema
      "case opts of None \<Rightarrow> [] | Some a \<Rightarrow> a" v]
  by (auto simp: getWithUrl_def Let_def split_beta split: if_splits option.splits prod.splits)

section \<open>Theorems: the numeric schemas\<close>


lemma digit_value_decimal:
  assumes "is_decimal_digit c"
  shows "digit_value 10 c = Some (decimal_digit c)"
proof -
  from assms have "c = CHR ''0'' \<or> c = CHR ''1'' \<or> c = CHR ''2'' \<or> c = CHR ''3'' \<or> c = CHR ''4'' \<or>
      c = CHR ''5'' \<or> c = CHR ''6'' \<or> c = CHR ''7'' \<or> c = CHR ''8'' \<or> c = CHR ''9''"
    by (simp add: is_decimal_digit_def)
  then show ?thesis
    by (elim disjE) (simp_all add: digit_value_def digit_table_def decimal_digit_def)
qed

lemma decimal_not_whitespace: "is_decimal_digit c \<Longrightarrow> \<not> is_whitespace c"
  by (auto simp: is_decimal_digit_def is_whitespace_def)

lemma dropWhile_hd: "xs \<noteq> [] \<Longrightarrow> \<not> P (hd xs) \<Longrightarrow> dropWhile P xs = xs"
  by (cases xs) auto

lemma trim_decimal:
  assumes "s \<noteq> []" and "list_all is_decimal_digit s"
  shows "trim s = s"
proof -
  have h: "\<not> is_whitespace (hd s)" using assms by (cases s) (auto simp: decimal_not_whitespace)
  have l: "\<not> is_whitespace (hd (rev s))"
    using assms by (simp add: hd_rev list_all_iff decimal_not_whitespace)
  show ?thesis
    using assms(1) h l by (simp add: trim_def dropWhile_hd)
qed

lemma decimal_no_prefix:
  assumes "list_all is_decimal_digit s"
  shows "\<not> startsWith s ''0x''" "\<not> startsWith s ''0X''" "\<not> startsWith s ''0o''"
    "\<not> startsWith s ''0O''" "\<not> startsWith s ''0b''" "\<not> startsWith s ''0B''"
    "\<not> startsWith s ''-''" "\<not> startsWith s ''+''"
proof -
  have two: "\<not> startsWith s [a, b]" if "\<not> is_decimal_digit b" for a b
  proof (cases s)
    case Nil
    then show ?thesis by simp
  next
    case (Cons x xs)
    with assms that show ?thesis by (cases xs) auto
  qed
  have one: "\<not> startsWith s [a]" if "\<not> is_decimal_digit a" for a
    using assms that by (cases s) auto
  show "\<not> startsWith s ''0x''" "\<not> startsWith s ''0X''" "\<not> startsWith s ''0o''"
    "\<not> startsWith s ''0O''" "\<not> startsWith s ''0b''" "\<not> startsWith s ''0B''"
    by (rule two, simp add: is_decimal_digit_def)+
  show "\<not> startsWith s ''-''" "\<not> startsWith s ''+''"
    by (rule one, simp add: is_decimal_digit_def)+
qed

lemma decimal_value_snoc:
  "decimal_value (s @ [c]) = 10 * decimal_value s + int (decimal_digit c)"
proof -
  have "decimal_value (s @ [c]) =
      (\<Sum>i < length s. int (decimal_digit ((s @ [c]) ! i)) * 10 ^ (length s - i)) + int (decimal_digit c)"
    by (simp add: decimal_value_def)
  also have "(\<Sum>i < length s. int (decimal_digit ((s @ [c]) ! i)) * 10 ^ (length s - i)) =
      (\<Sum>i < length s. 10 * (int (decimal_digit (s ! i)) * 10 ^ (length s - 1 - i)))"
  proof (rule sum.cong)
    fix i assume "i \<in> {..<length s}"
    then have i: "i < length s" by simp
    then have "length s - i = Suc (length s - 1 - i)" by simp
    then show "int (decimal_digit ((s @ [c]) ! i)) * 10 ^ (length s - i) =
        10 * (int (decimal_digit (s ! i)) * 10 ^ (length s - 1 - i))"
      using i by (simp add: nth_append)
  qed simp
  also have "\<dots> = 10 * decimal_value s"
    by (simp add: decimal_value_def sum_distrib_left)
  finally show ?thesis .
qed

lemma digits_value_decimal:
  "list_all is_decimal_digit s \<Longrightarrow> int (digits_value 10 s) = decimal_value s"
proof (induction s rule: rev_induct)
  case Nil
  show ?case by (simp add: digits_value_def decimal_value_def)
next
  case (snoc c s)
  then have "int (digits_value 10 s) = decimal_value s" and c: "is_decimal_digit c" by simp_all
  then show ?case
    by (simp add: digits_value_def decimal_value_snoc digit_value_decimal [OF c])
qed

lemma parse_digits_decimal:
  assumes "s \<noteq> []" and "list_all is_decimal_digit s"
  shows "parse_digits 10 s = Some (decimal_value s)"
proof -
  have "list_all (\<lambda>c. digit_value 10 c \<noteq> None) s"
    using assms(2) by (auto simp: list_all_iff digit_value_decimal)
  then show ?thesis using assms by (simp add: parse_digits_def digits_value_decimal)
qed

lemma BigIntSchema_decimal_exact:
  assumes "s \<noteq> []" and "list_all is_decimal_digit s"
  shows "BigIntSchema (VStr s) = Inr (VBigInt (decimal_value s))"
  using assms
  by (simp add: BigIntSchema_def StringToBigInt_def trim_decimal decimal_no_prefix
      parse_digits_decimal del: startsWith.simps)

lemma BigIntSchema_rejects_syntax_errors:
  "StringToBigInt s = None \<Longrightarrow>
   BigIntSchema (VStr s) = Inl [([], ''Invalid BigInt value: '' @ [CHR 0x22] @ s @ [CHR 0x22])]"
  by (simp add: BigIntSchema_def)

lemma BigIntSchema_rejects_examples:
  "StringToBigInt ''abc'' = None" "StringToBigInt ''1.5'' = None" "StringToBigInt ''1e3'' = None"
  "StringToBigInt ''12abc'' = None" "StringToBigInt ''0x'' = None" "StringToBigInt ''-0x10'' = None"
  "StringToBigInt ''1 2'' = None"
  by (simp_all add: StringToBigInt_def trim_def is_whitespace_def parse_digits_def digit_value_def
      digit_table_def)

text \<open>
  Claim C4. A non-empty string of decimal digits parses to exactly the integer it denotes
  (lemma \<open>BigIntSchema_decimal_exact\<close>, for every length), and a string on which
  \<^verbatim>\<open>BigInt\<close> throws gives the issue \<^verbatim>\<open>Invalid BigInt value\<close>. But \<^verbatim>\<open>BigInt\<close> does not throw
  on the empty string or on white space: these parse, silently, to \<^verbatim>\<open>0n\<close>.
\<close>

theorem BigIntSchema_empty_string_is_zero:
  "BigIntSchema (VStr '''') = Inr (VBigInt 0) \<and> BigIntSchema (VStr ''  '') = Inr (VBigInt 0)"
  by (simp add: BigIntSchema_def StringToBigInt_def trim_def is_whitespace_def)

text \<open>
  Claim C10. Where \<^verbatim>\<open>Number(val)\<close> is \<^verbatim>\<open>NaN\<close>, \<^verbatim>\<open>NumberStringSchema\<close> succeeds with the
  number 0.
\<close>

theorem NumberStringSchema_NaN_is_zero:
  assumes "StringToNumber round_double s = NaN"
  shows "NumberStringSchema round_double (VStr s) = Inr (VNum (Fin 0))"
  using assms by (simp add: NumberStringSchema_def)

theorem NumberStringSchema_NaN_is_zero_witness:
  "StringToNumber Fin ''abc'' = NaN \<and> NumberStringSchema Fin (VStr ''abc'') = Inr (VNum (Fin 0)) \<and>
   BlockCountdownSchema Fin
     (VObj [(''CurrentBlock'', VStr ''1''), (''CountdownBlock'', VStr ''2''),
            (''RemainingBlock'', VStr ''abc''), (''EstimateTimeInSec'', VStr ''3.5'')]) =
   Inr (VObj [(''CurrentBlock'', VStr ''1''), (''CountdownBlock'', VStr ''2''),
              (''RemainingBlock'', VNum (Fin 0)), (''EstimateTimeInSec'', VStr ''3.5'')])"
proof -
  have n: "StringToNumber Fin ''abc'' = NaN"
    by (simp add: StringToNumber_def trim_def is_whitespace_def parse_StrDecimalLiteral_def
        all_decimal_def digit_value_def digit_table_def)
  show ?thesis
    using n NumberStringSchema_NaN_is_zero [OF n]
    by (simp add: BlockCountdownSchema_def z_object_def z_string_def get_prop_def)
qed

section \<open>Theorems: the account balance method\<close>

lemma address_list_21:
  "20 < length (filter (\<lambda>addr. length addr > 0) (map trim (split_on CHR '','' (address_list 21))))"
  by code_simp

text \<open>
  With more than 20 addresses in the list (after trimming and dropping the empty pieces)
  \<^verbatim>\<open>getBalance\<close> throws before the transport is called, whatever the transport: the
  world is as it was, no network call is made. What it throws is a plain \<^verbatim>\<open>Error\<close>.
\<close>

lemma getBalance_over_20:
  assumes "20 < length (filter (\<lambda>addr. length addr > 0) (map trim (split_on CHR '','' address)))"
  shows "getBalance rt tget address tag w =
    (Inl (JsError ''Error'' ''Cannot query more than 20 addresses at once''), w)"
  using assms by (simp add: getBalance_def Let_def)

lemma addressList_21:
  "Validators_addressList (Some (address_list 21)) ''addresses'' =
     Some (ValidationError ''Too many addresses in addresses (max: 20)'')"
proof -
  have "length (map trim (split_on CHR '','' (address_list 21))) = 21" by code_simp
  moreover have "address_list 21 \<noteq> []" by code_simp
  moreover have "length (address_list 21) = 902" by code_simp
  ultimately show ?thesis
    by (simp add: Validators_addressList_def Let_def MAX_STRING_LENGTH_def MAX_ADDRESSES_def)
qed

text \<open>
  Claim C9. The error is raised before any network call, but it is not typed. For 21
  comma-joined addresses \<^verbatim>\<open>getBalance\<close> throws a plain \<^verbatim>\<open>Error\<close> with the message
  \<^verbatim>\<open>Cannot query more than 20 addresses at once\<close>, and the transport has not been called
  (the world counts the calls of its \<^verbatim>\<open>get\<close>): it is not the \<^verbatim>\<open>ValidationError\<close> that
  the method throws for a malformed address, and that \<^verbatim>\<open>Validators.addressList\<close> throws
  for the same 21 addresses.
\<close>

theorem getBalance_21_addresses_plain_Error:
  "getBalance (test_runtime ''{}'' VNull) (\<lambda>ps schema calls. (Inr VNull, Suc calls))
     (address_list 21) (Some ''latest'') (0 :: nat) =
     (Inl (JsError ''Error'' ''Cannot query more than 20 addresses at once''), 0) \<and>
   Validators_addressList (Some (address_list 21)) ''addresses'' =
     Some (ValidationError ''Too many addresses in addresses (max: 20)'') \<and>
   fst (getBalance (test_runtime ''{}'' VNull) (\<lambda>ps schema calls. (Inr VNull, Suc calls))
     ''0x12'' (Some ''latest'') (0 :: nat)) = Inl (ValidationError ''Invalid address: 0x12'')"
proof -
  have one: "filter (\<lambda>addr. length addr > 0) (map trim (split_on CHR '','' ''0x12'')) = [''0x12'']"
    by code_simp
  have bad: "Validators_addressSchema (Some ''0x12'') ''address'' =
      Some (ValidationError ''Invalid address: 0x12'')"
    by (simp add: Validators_addressSchema_def MAX_STRING_LENGTH_def AddressSchema_matches_def)
  have "fst (getBalance (test_runtime ''{}'' VNull) (\<lambda>ps schema calls. (Inr VNull, Suc calls))
     ''0x12'' (Some ''latest'') (0 :: nat)) = Inl (ValidationError ''Invalid address: 0x12'')"
    unfolding getBalance_def Let_def one by (simp add: bad)
  then show ?thesis
    using getBalance_over_20 [OF address_list_21] addressList_21 by simp
qed

end
